theory Spec2Isabelle
  imports Main "HOL-Library.Word"
begin

section \<open>The variable-sized record allocator of Dbtup (DbtupVarAlloc.cpp)\<close>

text \<open>
  A shallow embedding of \<^verbatim>\<open>storage/ndb/src/kernel/blocks/dbtup/DbtupVarAlloc.cpp\<close>.
  \<^verbatim>\<open>Uint32\<close> is a 32-bit word, so every \<open>+\<close> and \<open>-\<close> below wraps as the C++ does.
  A \<^verbatim>\<open>ndbrequire\<close> that fails, a \<^verbatim>\<open>ndbassert\<close> that fails, an index outside an array,
  a null pointer that is dereferenced and a page layout call that fails are values of
  \<open>error\<close>: every function that can reach one returns \<open>error + result\<close>.
\<close>

type_synonym u32 = "32 word"

datatype error = RequireFailed | AssertFailed | ArrayBounds | NullPointer | PageEngineFailed

subsection \<open>Constants and the size-class tables\<close>

text \<open>
  Modelled from the spec: \<^verbatim>\<open>MAX_FREE_LIST\<close> is declared in Dbtup.hpp, which is not among the
  sources. The reference configuration of the spec has the four listed classes 200-499,
  500-999, 1000-4079 and 4080-8159 plus the range 0-199; \<^verbatim>\<open>init_list_sizes\<close> fills the
  entries 0..4 of both tables, and \<^verbatim>\<open>update_free_page_list\<close> reads the tables at the
  "unlisted" value \<^verbatim>\<open>MAX_FREE_LIST\<close> itself, so that value is the index 4 of the range 0-199.
\<close>

definition MAX_FREE_LIST :: u32 where
  "MAX_FREE_LIST = 4"

text \<open>
  Modelled from the spec: \<^verbatim>\<open>RNIL\<close>, the "none" page reference, is declared outside the
  sources; it is a fixed 32-bit value that no page of the pool has as its id.
\<close>

definition RNIL :: u32 where
  "RNIL = 0xffffff00"

text \<open>A read of a C array: an index past the end is an error of the model.\<close>

definition array_get :: "'a list \<Rightarrow> u32 \<Rightarrow> error + 'a" where
  "array_get a i = (if unat i < length a then Inr (a ! unat i) else Inl ArrayBounds)"

text \<open>
  \<^verbatim>\<open>init_list_sizes\<close> assigns the ten table entries. The two tables have
  \<^verbatim>\<open>MAX_FREE_LIST + 1\<close> entries each (the declaration is outside the sources; the function
  writes the indices 0..4).
\<close>

definition init_list_sizes :: "u32 list \<times> u32 list \<Rightarrow> u32 list \<times> u32 list" where
  "init_list_sizes a =
     (case a of (mn, mx) \<Rightarrow>
        (mn[0 := 200, 1 := 500, 2 := 1000, 3 := 4080, 4 := 0],
         mx[0 := 499, 1 := 999, 2 := 4079, 3 := 8159, 4 := 199]))"

definition c_min_list_size :: "u32 list" where
  "c_min_list_size = fst (init_list_sizes (replicate 5 0, replicate 5 0))"

definition c_max_list_size :: "u32 list" where
  "c_max_list_size = snd (init_list_sizes (replicate 5 0, replicate 5 0))"

subsection \<open>Pages, the fragment, the table and the block state\<close>

record local_key =
  m_page_no :: u32
  m_page_idx :: u32

text \<open>
  A \<^verbatim>\<open>Uint32*\<close> into a page of the pool is the page's id and a word offset into the page's
  data; \<open>Null\<close> is the null pointer.
\<close>

datatype ptr = Null | Ptr u32 u32

text \<open>
  The fields of \<^verbatim>\<open>Page\<close> and \<^verbatim>\<open>Var_page\<close> that DbtupVarAlloc.cpp reads or writes, and the
  data words of the page. The lists of pages are intrusive: \<open>nextList\<close> and \<open>prevList\<close>
  are fields of the page.
\<close>

record page =
  free_space :: u32
  list_index :: u32
  nextList :: u32
  prevList :: u32
  page_state :: u32
  physical_page_id :: u32
  frag_page_id :: u32
  chunk_size :: u32
  next_chunk :: u32
  insert_pos :: u32
  m_data :: "nat \<Rightarrow> u32"

text \<open>
  The fields of \<^verbatim>\<open>Fragrecord\<close> the file uses. \<open>free_var_page_array\<close> holds the
  \<^verbatim>\<open>firstItem\<close> of each of the \<^verbatim>\<open>MAX_FREE_LIST\<close> list heads, \<open>m_empty_pages\<close> the
  \<^verbatim>\<open>firstItem\<close> of the list of empty pages.
\<close>

record fragrecord =
  free_var_page_array :: "u32 \<Rightarrow> u32"
  m_empty_pages :: u32
  noOfVarPages :: u32
  m_var_page_chunks :: u32

text \<open>
  \<^verbatim>\<open>tabPtr->m_offsets[MM].m_fix_header_size\<close>. Its integer type is declared outside the
  sources, so the type of the field is a parameter \<open>'h\<close>; the functions that change the
  field take it at a word type of any width.
\<close>

record 'h tablerec =
  m_fix_header_size :: 'h

text \<open>
  The state of the block that the file touches: the page pool, the fragment and the table
  the call is for, the copy buffer \<^verbatim>\<open>cinBuffer\<close>, and the private state \<open>collab\<close> of the
  external collaborators (the fixed-part allocator's and the page allocator's bookkeeping).
  \<^verbatim>\<open>c_page_pool.getPtr\<close> is the lookup \<open>c_page_pool s i\<close>; its bounds check is outside the
  sources and is not modelled.
\<close>

record ('h, 'x) dbtup =
  c_page_pool :: "u32 \<Rightarrow> page"
  fragrec :: fragrecord
  tabrec :: "'h tablerec"
  cinBuffer :: "u32 list"
  collab :: 'x

text \<open>
  The code that DbtupVarAlloc.cpp calls and that is not among the sources is a parameter
  of the model, one field each:
  \<^item> the constants \<^verbatim>\<open>Tuple_header::HeaderSize\<close>, \<^verbatim>\<open>Var_part_ref::SZ32\<close>,
    \<^verbatim>\<open>Var_page::DATA_WORDS\<close>, \<^verbatim>\<open>ZTH_MM_FREE\<close> and \<^verbatim>\<open>ZEMPTY_MM\<close>;
  \<^item> the fixed-part allocator \<^verbatim>\<open>alloc_fix_rec\<close>, \<^verbatim>\<open>alloc_fix_rowid\<close> and \<^verbatim>\<open>free_fix_rec\<close>,
    which may change the whole state; \<open>key\<close> and \<open>out_frag_page_id\<close> go in and come back;
  \<^item> the page allocator \<^verbatim>\<open>allocConsPages\<close>, on the collaborators' state only: given the
    number of pages asked for and the current value of the reference argument it gives
    the number of pages allocated, the new value of the reference and its new state;
  \<^item> \<^verbatim>\<open>Fix_page::get_ptr\<close> and \<^verbatim>\<open>Tuple_header::get_var_part_ptr\<close>, as word offsets;
  \<^item> the page layout engine \<^verbatim>\<open>Var_page\<close> (\<^verbatim>\<open>init\<close>, \<^verbatim>\<open>alloc_record\<close>, \<^verbatim>\<open>free_record\<close>,
    \<^verbatim>\<open>get_ptr\<close>, \<^verbatim>\<open>is_space_behind_entry\<close>, \<^verbatim>\<open>set_entry_len\<close>, \<^verbatim>\<open>reorg\<close>,
    \<^verbatim>\<open>get_free_space_ptr\<close>, \<^verbatim>\<open>set_entry_offset\<close>, \<^verbatim>\<open>grow_entry\<close>, \<^verbatim>\<open>get_entry_len\<close>), each a
    function of one page. \<^verbatim>\<open>alloc_record\<close> may fail (the spec: insert "fails if
    \<open>size > free_space\<close>"), the others are total.
\<close>

record ('h, 'x) env =
  HeaderSize :: u32
  SZ32 :: u32
  DATA_WORDS :: u32
  ZTH_MM_FREE :: u32
  ZEMPTY_MM :: u32
  alloc_fix_rec ::
    "('h, 'x) dbtup \<Rightarrow> local_key \<Rightarrow> u32 \<Rightarrow> ptr \<times> local_key \<times> u32 \<times> ('h, 'x) dbtup"
  alloc_fix_rowid ::
    "('h, 'x) dbtup \<Rightarrow> local_key \<Rightarrow> u32 \<Rightarrow> ptr \<times> local_key \<times> u32 \<times> ('h, 'x) dbtup"
  free_fix_rec :: "('h, 'x) dbtup \<Rightarrow> local_key \<Rightarrow> u32 \<Rightarrow> ('h, 'x) dbtup"
  allocConsPages :: "'x \<Rightarrow> u32 \<Rightarrow> u32 \<Rightarrow> u32 \<times> u32 \<times> 'x"
  fix_get_ptr :: "page \<Rightarrow> u32 \<Rightarrow> u32 \<Rightarrow> u32"
  get_var_part_ptr :: "'h tablerec \<Rightarrow> u32 \<Rightarrow> u32"
  var_page_init :: "page \<Rightarrow> page"
  alloc_record :: "page \<Rightarrow> u32 \<Rightarrow> error + page \<times> u32"
  free_record :: "page \<Rightarrow> u32 \<Rightarrow> page"
  get_ptr :: "page \<Rightarrow> u32 \<Rightarrow> u32"
  is_space_behind_entry :: "page \<Rightarrow> u32 \<Rightarrow> u32 \<Rightarrow> bool"
  set_entry_len :: "page \<Rightarrow> u32 \<Rightarrow> u32 \<Rightarrow> page"
  reorg :: "page \<Rightarrow> page"
  get_free_space_ptr :: "page \<Rightarrow> u32"
  set_entry_offset :: "page \<Rightarrow> u32 \<Rightarrow> u32 \<Rightarrow> page"
  grow_entry :: "page \<Rightarrow> u32 \<Rightarrow> u32 \<Rightarrow> page"
  get_entry_len :: "page \<Rightarrow> u32 \<Rightarrow> u32"

subsection \<open>Memory of a page\<close>

text \<open>\<^verbatim>\<open>memcpy\<close> of \<open>n\<close> words out of and into the data of a page.\<close>

definition read_words :: "(u32 \<Rightarrow> page) \<Rightarrow> ptr \<Rightarrow> nat \<Rightarrow> error + u32 list" where
  "read_words pool p n =
     (case p of
        Null \<Rightarrow> Inl NullPointer
      | Ptr pg off \<Rightarrow> Inr (map (\<lambda>k. m_data (pool pg) (unat off + k)) [0..<n]))"

definition write_words :: "(u32 \<Rightarrow> page) \<Rightarrow> ptr \<Rightarrow> u32 list \<Rightarrow> error + (u32 \<Rightarrow> page)" where
  "write_words pool p ws =
     (case p of
        Null \<Rightarrow> Inl NullPointer
      | Ptr pg off \<Rightarrow>
          Inr (pool(pg := (pool pg)\<lparr>m_data :=
                 (\<lambda>a. if unat off \<le> a \<and> a < unat off + length ws
                      then ws ! (a - unat off) else m_data (pool pg) a)\<rparr>)))"

text \<open>
  Modelled from the spec: \<^verbatim>\<open>Var_part_ref\<close> is declared outside the sources. The spec has
  it as the \<open>(page_id, index)\<close> pair by which a row's fixed part locates its variable part;
  \<^verbatim>\<open>assign\<close> stores the pair at the reference and \<^verbatim>\<open>copyout\<close> reads it back.
\<close>

definition var_part_ref_assign ::
  "(u32 \<Rightarrow> page) \<Rightarrow> ptr \<Rightarrow> local_key \<Rightarrow> error + (u32 \<Rightarrow> page)" where
  "var_part_ref_assign pool dst src = write_words pool dst [m_page_no src, m_page_idx src]"

definition var_part_ref_copyout :: "(u32 \<Rightarrow> page) \<Rightarrow> ptr \<Rightarrow> error + local_key" where
  "var_part_ref_copyout pool src =
     (case read_words pool src 2 of
        Inl e \<Rightarrow> Inl e
      | Inr ws \<Rightarrow> Inr \<lparr>m_page_no = ws ! 0, m_page_idx = ws ! 1\<rparr>)"

subsection \<open>The intrusive lists of pages\<close>

text \<open>
  Modelled from the spec: the list templates \<^verbatim>\<open>LocalDLList\<close> and \<^verbatim>\<open>LocalSLList\<close> are outside
  the sources. The spec has them as intrusive lists threaded through the \<open>next\<close> and
  \<open>prev\<close> fields of the page header, with insertion and removal in constant time: \<open>add\<close>
  links a page in at the head, \<open>remove\<close> unlinks a page through its two neighbours,
  \<open>remove_front\<close> takes the head off, and \<open>add\<close> of a linked run puts the run before the
  old head. A list head is its \<^verbatim>\<open>firstItem\<close>, \<open>RNIL\<close> when the list is empty. The local
  list is made from \<^verbatim>\<open>free_var_page_array[list_index]\<close>, so the array is indexed on every
  path of \<open>add\<close> and \<open>remove\<close>, also where the head itself is left alone.
\<close>

definition fvpa_get :: "fragrecord \<Rightarrow> u32 \<Rightarrow> error + u32" where
  "fvpa_get f i =
     (if i < MAX_FREE_LIST then Inr (free_var_page_array f i) else Inl ArrayBounds)"

definition fvpa_set :: "fragrecord \<Rightarrow> u32 \<Rightarrow> u32 \<Rightarrow> error + fragrecord" where
  "fvpa_set f i v =
     (if i < MAX_FREE_LIST
      then Inr (f\<lparr>free_var_page_array := (free_var_page_array f)(i := v)\<rparr>)
      else Inl ArrayBounds)"

definition dl_add :: "('h, 'x) dbtup \<Rightarrow> u32 \<Rightarrow> u32 \<Rightarrow> error + ('h, 'x) dbtup" where
  "dl_add s li p =
     (case fvpa_get (fragrec s) li of
        Inl e \<Rightarrow> Inl e
      | Inr ff \<Rightarrow>
          (let pool1 = (c_page_pool s)(p := (c_page_pool s p)\<lparr>nextList := ff, prevList := RNIL\<rparr>);
               pool2 = (if ff \<noteq> RNIL then pool1(ff := (pool1 ff)\<lparr>prevList := p\<rparr>) else pool1)
           in case fvpa_set (fragrec s) li p of
                Inl e \<Rightarrow> Inl e
              | Inr f \<Rightarrow> Inr (s\<lparr>c_page_pool := pool2, fragrec := f\<rparr>)))"

definition dl_remove :: "('h, 'x) dbtup \<Rightarrow> u32 \<Rightarrow> u32 \<Rightarrow> error + ('h, 'x) dbtup" where
  "dl_remove s li p =
     (let ni = nextList (c_page_pool s p);
          pi = prevList (c_page_pool s p);
          pool1 = (if ni \<noteq> RNIL
                   then (c_page_pool s)(ni := (c_page_pool s ni)\<lparr>prevList := pi\<rparr>)
                   else c_page_pool s)
      in if pi \<noteq> RNIL
         then (if li < MAX_FREE_LIST
               then Inr (s\<lparr>c_page_pool := pool1(pi := (pool1 pi)\<lparr>nextList := ni\<rparr>)\<rparr>)
               else Inl ArrayBounds)
         else (case fvpa_set (fragrec s) li ni of
                 Inl e \<Rightarrow> Inl e
               | Inr f \<Rightarrow> Inr (s\<lparr>c_page_pool := pool1, fragrec := f\<rparr>)))"

subsection \<open>Loop counters\<close>

text \<open>A \<^verbatim>\<open>Uint32\<close> counter below its bound does not wrap when it is incremented.\<close>

lemma unat_inc: "i < (m::u32) \<Longrightarrow> unat (i + 1) = unat i + 1"
proof -
  assume "i < m"
  then have "unat i < unat m" by (simp add: word_less_nat_alt)
  moreover have "unat m < 2 ^ 32" using unsigned_less [of m] by simp
  ultimately have "unat i + unat (1::u32) < 2 ^ LENGTH(32)" by simp
  then have "unat (i + 1) = unat i + unat (1::u32)" by (simp only: unat_add_lem)
  then show ?thesis by simp
qed

lemma loop_measure: "i < (m::u32) \<Longrightarrow> unat m - unat (i + 1) < unat m - unat i"
  by (simp add: unat_inc word_less_nat_alt diff_less_mono2)

subsection \<open>calculate_free_list_impl\<close>

function calculate_free_list_loop :: "u32 \<Rightarrow> u32 \<Rightarrow> error + u32" where
  "calculate_free_list_loop i free_space_size =
     (if i < MAX_FREE_LIST then
        (case array_get c_max_list_size i of
           Inl e \<Rightarrow> Inl e
         | Inr mx \<Rightarrow>
             if free_space_size \<le> mx then Inr i
             else calculate_free_list_loop (i + 1) free_space_size)
      else Inl RequireFailed)"
  by pat_completeness auto
termination
  by (relation "measure (\<lambda>(i, _). unat MAX_FREE_LIST - unat i)")
     (simp_all add: loop_measure)

declare calculate_free_list_loop.simps [simp del]

definition calculate_free_list_impl :: "u32 \<Rightarrow> error + u32" where
  "calculate_free_list_impl free_space_size = calculate_free_list_loop 0 free_space_size"

subsection \<open>get_alloc_page\<close>

text \<open>The first loop of \<^verbatim>\<open>get_alloc_page\<close>: the head of the first list from \<open>i\<close> upwards that is not empty.\<close>

function get_alloc_page_loop :: "fragrecord \<Rightarrow> u32 \<Rightarrow> u32 option" where
  "get_alloc_page_loop f i =
     (if i < MAX_FREE_LIST then
        (if free_var_page_array f i \<noteq> RNIL then Some (free_var_page_array f i)
         else get_alloc_page_loop f (i + 1))
      else None)"
  by pat_completeness auto
termination
  by (relation "measure (\<lambda>(_, i). unat MAX_FREE_LIST - unat i)")
     (simp_all add: loop_measure)

declare get_alloc_page_loop.simps [simp del]

text \<open>
  The second loop: at most 16 pages of one list, from \<open>p\<close> along \<open>nextList\<close>; the first
  page with \<open>free_space \<ge> alloc_size\<close>, or \<open>RNIL\<close>.
\<close>

function get_alloc_page_scan :: "(u32 \<Rightarrow> page) \<Rightarrow> u32 \<Rightarrow> u32 \<Rightarrow> u32 \<Rightarrow> u32" where
  "get_alloc_page_scan pool alloc_size p loop =
     (if p \<noteq> RNIL \<and> loop < 16 then
        (if free_space (pool p) \<ge> alloc_size then p
         else get_alloc_page_scan pool alloc_size (nextList (pool p)) (loop + 1))
      else RNIL)"
  by pat_completeness auto
termination
  by (relation "measure (\<lambda>(_, _, _, loop). unat (16::u32) - unat loop)")
     (simp_all only: wf_measure in_measure prod.case loop_measure)

declare get_alloc_page_scan.simps [simp del]

definition get_alloc_page :: "('h, 'x) dbtup \<Rightarrow> u32 \<Rightarrow> error + u32" where
  "get_alloc_page s alloc_size =
     (case calculate_free_list_impl alloc_size of
        Inl e \<Rightarrow> Inl e
      | Inr c \<Rightarrow>
          (case (if c = MAX_FREE_LIST - 1 then Inr c
                 else if c < MAX_FREE_LIST - 1 then Inr (c + 1)
                 else Inl RequireFailed) of
             Inl e \<Rightarrow> Inl e
           | Inr start_index \<Rightarrow>
               (case get_alloc_page_loop (fragrec s) start_index of
                  Some first \<Rightarrow> Inr first
                | None \<Rightarrow>
                    if \<not> start_index > 0 then Inl RequireFailed
                    else
                      (case fvpa_get (fragrec s) (start_index - 1) of
                         Inl e \<Rightarrow> Inl e
                       | Inr first \<Rightarrow>
                           Inr (get_alloc_page_scan (c_page_pool s) alloc_size first 0)))))"

subsection \<open>get_empty_var_page\<close>

text \<open>The body of the loop over the pages of a fresh run, on the page \<^verbatim>\<open>ptr.i = p\<close>.\<close>

definition fresh_page :: "u32 \<Rightarrow> u32 \<Rightarrow> page \<Rightarrow> page" where
  "fresh_page zempty p pg =
     pg\<lparr>physical_page_id := p, page_state := zempty, nextList := p + 1,
        prevList := RNIL, frag_page_id := RNIL\<rparr>"

text \<open>The loop over the \<open>cnt\<close> pages of the run: \<open>i\<close> counts, \<open>p\<close> is \<^verbatim>\<open>ptr.i\<close>.\<close>

function get_empty_var_page_loop ::
  "u32 \<Rightarrow> (u32 \<Rightarrow> page) \<Rightarrow> u32 \<Rightarrow> u32 \<Rightarrow> u32 \<Rightarrow> (u32 \<Rightarrow> page)" where
  "get_empty_var_page_loop zempty pool i cnt p =
     (if i < cnt then
        get_empty_var_page_loop zempty (pool(p := fresh_page zempty p (pool p)))
          (i + 1) cnt (p + 1)
      else pool)"
  by pat_completeness auto
termination
  by (relation "measure (\<lambda>(_, _, i, cnt, _). unat cnt - unat i)")
     (simp_all add: loop_measure)

declare get_empty_var_page_loop.simps [simp del]

text \<open>
  \<^verbatim>\<open>remove_front\<close> leaves \<open>RNIL\<close> in \<^verbatim>\<open>ptr.i\<close> when the list is empty. After the loop
  \<^verbatim>\<open>ptr.p\<close> is the page of its last round, \<open>ret + (cnt - 1)\<close>. The local list writes its
  head back to \<open>m_empty_pages\<close> when the function returns.
\<close>

definition get_empty_var_page :: "('h, 'x) env \<Rightarrow> ('h, 'x) dbtup \<Rightarrow> u32 \<times> ('h, 'x) dbtup" where
  "get_empty_var_page env s =
     (let first = m_empty_pages (fragrec s) in
      if first \<noteq> RNIL then
        (first, s\<lparr>fragrec := (fragrec s)\<lparr>m_empty_pages := nextList (c_page_pool s first)\<rparr>\<rparr>)
      else
        (case allocConsPages env (collab s) 10 first of
           (cnt, ret, x) \<Rightarrow>
             (let f1 = (fragrec s)\<lparr>noOfVarPages := noOfVarPages (fragrec s) + cnt\<rparr> in
              if cnt = 0 then (RNIL, s\<lparr>fragrec := f1, collab := x\<rparr>)
              else
                (let pool1 = get_empty_var_page_loop (ZEMPTY_MM env) (c_page_pool s) 0 cnt ret;
                     last = ret + (cnt - 1);
                     pool2 = (if cnt > 1
                              then (let q = pool1(last := (pool1 last)\<lparr>nextList := RNIL\<rparr>)
                                    in q(last := (q last)\<lparr>nextList := first\<rparr>))
                              else pool1);
                     head = (if cnt > 1 then ret + 1 else first);
                     pool3 = pool2(ret := (pool2 ret)\<lparr>chunk_size := cnt,
                                next_chunk := m_var_page_chunks f1\<rparr>)
                 in (ret, s\<lparr>c_page_pool := pool3,
                            fragrec := f1\<lparr>m_empty_pages := head, m_var_page_chunks := ret\<rparr>,
                            collab := x\<rparr>)))))"

subsection \<open>update_free_page_list\<close>

definition update_free_page_list :: "('h, 'x) dbtup \<Rightarrow> u32 \<Rightarrow> error + ('h, 'x) dbtup" where
  "update_free_page_list s pagePtr =
     (let fs = free_space (c_page_pool s pagePtr);
          li = list_index (c_page_pool s pagePtr)
      in case array_get c_min_list_size li of
           Inl e \<Rightarrow> Inl e
         | Inr mn \<Rightarrow>
        (case array_get c_max_list_size li of
           Inl e \<Rightarrow> Inl e
         | Inr mx \<Rightarrow>
             if fs < mn \<or> fs > mx then
               (case calculate_free_list_impl fs of
                  Inl e \<Rightarrow> Inl e
                | Inr new_list_index \<Rightarrow>
                    (case (if li \<noteq> MAX_FREE_LIST then dl_remove s li pagePtr else Inr s) of
                       Inl e \<Rightarrow> Inl e
                     | Inr s1 \<Rightarrow>
                         (case array_get c_min_list_size new_list_index of
                            Inl e \<Rightarrow> Inl e
                          | Inr mn' \<Rightarrow>
                              if fs < mn' then
                                (if new_list_index = 0
                                 then Inr (s1\<lparr>c_page_pool := (c_page_pool s1)
                                        (pagePtr := (c_page_pool s1 pagePtr)
                                           \<lparr>list_index := MAX_FREE_LIST\<rparr>)\<rparr>)
                                 else Inl RequireFailed)
                              else
                                (case dl_add s1 new_list_index pagePtr of
                                   Inl e \<Rightarrow> Inl e
                                 | Inr s2 \<Rightarrow>
                                     Inr (s2\<lparr>c_page_pool := (c_page_pool s2)
                                        (pagePtr := (c_page_pool s2 pagePtr)
                                           \<lparr>list_index := new_list_index\<rparr>)\<rparr>)))))
             else Inr s))"

subsection \<open>alloc_var_part\<close>

text \<open>
  The lines after the page is chosen: \<^verbatim>\<open>alloc_record\<close> on the page, the key, the re-filing,
  and the pointer to the record.
\<close>

definition alloc_var_part_on ::
  "('h, 'x) env \<Rightarrow> ('h, 'x) dbtup \<Rightarrow> u32 \<Rightarrow> u32 \<Rightarrow> error + ptr \<times> local_key \<times> ('h, 'x) dbtup" where
  "alloc_var_part_on env s pagePtr alloc_size =
     (case alloc_record env (c_page_pool s pagePtr) alloc_size of
        Inl e \<Rightarrow> Inl e
      | Inr (pg, idx) \<Rightarrow>
          (case update_free_page_list (s\<lparr>c_page_pool := (c_page_pool s)(pagePtr := pg)\<rparr>) pagePtr of
             Inl e \<Rightarrow> Inl e
           | Inr s1 \<Rightarrow>
               Inr (Ptr pagePtr (get_ptr env (c_page_pool s1 pagePtr) idx),
                    \<lparr>m_page_no = pagePtr, m_page_idx = idx\<rparr>, s1)))"

text \<open>\<open>key\<close> goes in and comes back: it is written on success only.\<close>

definition alloc_var_part ::
  "('h, 'x) env \<Rightarrow> ('h, 'x) dbtup \<Rightarrow> u32 \<Rightarrow> local_key \<Rightarrow>
     error + ptr \<times> local_key \<times> ('h, 'x) dbtup" where
  "alloc_var_part env s alloc_size key =
     (case get_alloc_page s (alloc_size + 1) of
        Inl e \<Rightarrow> Inl e
      | Inr i \<Rightarrow>
          if i = RNIL then
            (case get_empty_var_page env s of
               (i', s1) \<Rightarrow>
                 if i' = RNIL then Inr (Null, key, s1)
                 else
                   (let s2 = s1\<lparr>c_page_pool := (c_page_pool s1)
                                (i' := (var_page_init env (c_page_pool s1 i'))
                                   \<lparr>list_index := MAX_FREE_LIST - 1\<rparr>)\<rparr>
                    in case dl_add s2 (MAX_FREE_LIST - 1) i' of
                         Inl e \<Rightarrow> Inl e
                       | Inr s3 \<Rightarrow>
                           alloc_var_part_on env
                             (s3\<lparr>c_page_pool := (c_page_pool s3)
                                  (i' := (c_page_pool s3 i')\<lparr>page_state := ZTH_MM_FREE env\<rparr>)\<rparr>)
                             i' alloc_size))
          else alloc_var_part_on env s i alloc_size)"

text \<open>
  A \<^verbatim>\<open>Local_key\<close> local to a caller is not initialised before the call that fills it. The
  model starts it at this value; it is overwritten before it is read.
\<close>

definition local_key_uninit :: local_key where
  "local_key_uninit = \<lparr>m_page_no = RNIL, m_page_idx = RNIL\<rparr>"

subsection \<open>free_var_rec\<close>

text \<open>
  \<open>pagePtr\<close> is the page of the fixed part; after the fixed part is freed the same variable
  is the page of the variable part, \<open>m_page_no ref\<close>.
\<close>

definition free_var_rec ::
  "('h, 'x) env \<Rightarrow> ('h, 'x) dbtup \<Rightarrow> local_key \<Rightarrow> u32 \<Rightarrow> error + ('h, 'x) dbtup" where
  "free_var_rec env s key pagePtr =
     (let tuple = fix_get_ptr env (c_page_pool s pagePtr) (m_page_idx key) 0;
          varref = Ptr pagePtr (get_var_part_ptr env (tabrec s) tuple)
      in case var_part_ref_copyout (c_page_pool s) varref of
           Inl e \<Rightarrow> Inl e
         | Inr ref \<Rightarrow>
             (let s1 = free_fix_rec env s key pagePtr;
                  vp = m_page_no ref;
                  s2 = s1\<lparr>c_page_pool := (c_page_pool s1)
                          (vp := free_record env (c_page_pool s1 vp) (m_page_idx ref))\<rparr>
              in if \<not> free_space (c_page_pool s2 vp) \<le> DATA_WORDS env then Inl AssertFailed
                 else if free_space (c_page_pool s2 vp) = DATA_WORDS env - 1
                 then update_free_page_list s2 vp
                 else update_free_page_list s2 vp))"

subsection \<open>realloc_var_part\<close>

text \<open>\<^verbatim>\<open>memcpy\<close> of \<open>4 * sz\<close> bytes, the product taken in \<^verbatim>\<open>Uint32\<close>, copies this many words.\<close>

definition memcpy_words :: "u32 \<Rightarrow> nat" where
  "memcpy_words sz = unat (4 * sz) div 4"

text \<open>
  The block that reorganises the page when there is no space behind the entry: it gives
  the new pointer, the new \<open>add\<close> and the new state.
\<close>

definition realloc_reorg ::
  "('h, 'x) env \<Rightarrow> ('h, 'x) dbtup \<Rightarrow> u32 \<Rightarrow> u32 \<Rightarrow> u32 \<Rightarrow> u32 \<Rightarrow>
     error + ptr \<times> u32 \<times> ('h, 'x) dbtup" where
  "realloc_reorg env s pagePtr idx oldsz add =
     (let pageP = c_page_pool s pagePtr;
          n = memcpy_words oldsz
      in case read_words (c_page_pool s) (Ptr pagePtr (get_ptr env pageP idx)) n of
           Inl e \<Rightarrow> Inl e
         | Inr copyBuffer \<Rightarrow>
             (let p1 = set_entry_len env pageP idx 0;
                  p2 = p1\<lparr>free_space := free_space p1 + oldsz\<rparr>;
                  p3 = reorg env p2;
                  new_var_ptr = Ptr pagePtr (get_free_space_ptr env p3)
              in case write_words ((c_page_pool s)(pagePtr := p3)) new_var_ptr copyBuffer of
                   Inl e \<Rightarrow> Inl e
                 | Inr pool4 \<Rightarrow>
                     (let p5 = set_entry_offset env (pool4 pagePtr) idx (insert_pos (pool4 pagePtr))
                      in Inr (new_var_ptr, add + oldsz,
                              s\<lparr>c_page_pool := pool4(pagePtr := p5),
                                cinBuffer := copyBuffer @ drop n (cinBuffer s)\<rparr>))))"

text \<open>The \<^verbatim>\<open>else\<close> branch: a new variable part on a page that \<^verbatim>\<open>alloc_var_part\<close> picks.\<close>

definition realloc_move ::
  "('h, 'x) env \<Rightarrow> ('h, 'x) dbtup \<Rightarrow> u32 \<Rightarrow> ptr \<Rightarrow> local_key \<Rightarrow> u32 \<Rightarrow> u32 \<Rightarrow>
     error + ptr \<times> ('h, 'x) dbtup" where
  "realloc_move env s pagePtr refptr oldref oldsz newsz =
     (let idx = m_page_idx oldref;
          src = Ptr pagePtr (get_ptr env (c_page_pool s pagePtr) idx)
      in case alloc_var_part env s newsz local_key_uninit of
           Inl e \<Rightarrow> Inl e
         | Inr (new_var_ptr, newref, s1) \<Rightarrow>
             if new_var_ptr = Null then Inr (Null, s1)
             else if \<not> m_page_no oldref \<noteq> m_page_no newref then Inl AssertFailed
             else if \<not> get_entry_len env (c_page_pool s1 pagePtr) idx = oldsz then Inl AssertFailed
             else
               (case read_words (c_page_pool s1) src (memcpy_words oldsz) of
                  Inl e \<Rightarrow> Inl e
                | Inr ws \<Rightarrow>
                    (case write_words (c_page_pool s1) new_var_ptr ws of
                       Inl e \<Rightarrow> Inl e
                     | Inr pool2 \<Rightarrow>
                         (case var_part_ref_assign pool2 refptr newref of
                            Inl e \<Rightarrow> Inl e
                          | Inr pool3 \<Rightarrow>
                              (case update_free_page_list
                                      (s1\<lparr>c_page_pool := pool3
                                           (pagePtr := free_record env (pool3 pagePtr) idx)\<rparr>)
                                      pagePtr of
                                 Inl e \<Rightarrow> Inl e
                               | Inr s2 \<Rightarrow> Inr (new_var_ptr, s2))))))"

definition realloc_var_part ::
  "('h, 'x) env \<Rightarrow> ('h, 'x) dbtup \<Rightarrow> u32 \<Rightarrow> ptr \<Rightarrow> u32 \<Rightarrow> u32 \<Rightarrow> error + ptr \<times> ('h, 'x) dbtup" where
  "realloc_var_part env s pagePtr refptr oldsz newsz =
     (let add = newsz - oldsz;
          pageP = c_page_pool s pagePtr
      in case var_part_ref_copyout (c_page_pool s) refptr of
           Inl e \<Rightarrow> Inl e
         | Inr oldref \<Rightarrow>
             if free_space pageP \<ge> add then
               (case (if \<not> is_space_behind_entry env pageP (m_page_idx oldref) add
                      then realloc_reorg env s pagePtr (m_page_idx oldref) oldsz add
                      else Inr (Ptr pagePtr (get_ptr env pageP (m_page_idx oldref)), add, s)) of
                  Inl e \<Rightarrow> Inl e
                | Inr (new_var_ptr, add', s1) \<Rightarrow>
                    (case update_free_page_list
                            (s1\<lparr>c_page_pool := (c_page_pool s1)
                                 (pagePtr := grow_entry env (c_page_pool s1 pagePtr)
                                               (m_page_idx oldref) add')\<rparr>)
                            pagePtr of
                       Inl e \<Rightarrow> Inl e
                     | Inr s2 \<Rightarrow> Inr (new_var_ptr, s2)))
             else realloc_move env s pagePtr refptr oldref oldsz newsz)"

subsection \<open>alloc_var_rec and alloc_var_rowid\<close>

text \<open>
  The two functions differ in the fixed-part allocator they call. \<open>alloc_fix\<close> is that
  allocator; the rest is the common body.
\<close>

definition alloc_var_common ::
  "(('w::len word, 'x) dbtup \<Rightarrow> local_key \<Rightarrow> u32 \<Rightarrow> ptr \<times> local_key \<times> u32 \<times> ('w word, 'x) dbtup) \<Rightarrow>
   ('w word, 'x) env \<Rightarrow> ('w word, 'x) dbtup \<Rightarrow> u32 \<Rightarrow> local_key \<Rightarrow> u32 \<Rightarrow>
     error + ptr \<times> local_key \<times> u32 \<times> ('w word, 'x) dbtup" where
  "alloc_var_common alloc_fix env s alloc_size key out_frag_page_id =
     (let XXX = HeaderSize env + SZ32 env;
          s1 = s\<lparr>tabrec := (tabrec s)\<lparr>m_fix_header_size :=
                  m_fix_header_size (tabrec s) + ucast XXX\<rparr>\<rparr>
      in case alloc_fix s1 key out_frag_page_id of
           (ptr, key1, out1, s2) \<Rightarrow>
             (let s3 = s2\<lparr>tabrec := (tabrec s2)\<lparr>m_fix_header_size :=
                          m_fix_header_size (tabrec s2) - ucast XXX\<rparr>\<rparr>
              in case ptr of
                   Null \<Rightarrow> Inr (Null, key1, out1, s3)
                 | Ptr tp toff \<Rightarrow>
                     (case alloc_var_part env s3 alloc_size local_key_uninit of
                        Inl e \<Rightarrow> Inl e
                      | Inr (vptr, varref, s4) \<Rightarrow>
                          if vptr \<noteq> Null then
                            (case var_part_ref_assign (c_page_pool s4)
                                    (Ptr tp (get_var_part_ptr env (tabrec s4) toff)) varref of
                               Inl e \<Rightarrow> Inl e
                             | Inr pool5 \<Rightarrow> Inr (ptr, key1, out1, s4\<lparr>c_page_pool := pool5\<rparr>))
                          else
                            Inr (Null, key1, out1,
                                 free_fix_rec env s4 key1 (m_page_no key1)))))"

definition alloc_var_rec ::
  "('w::len word, 'x) env \<Rightarrow> ('w word, 'x) dbtup \<Rightarrow> u32 \<Rightarrow> local_key \<Rightarrow> u32 \<Rightarrow>
     error + ptr \<times> local_key \<times> u32 \<times> ('w word, 'x) dbtup" where
  "alloc_var_rec env s alloc_size key out_frag_page_id =
     alloc_var_common (alloc_fix_rec env) env s alloc_size key out_frag_page_id"

definition alloc_var_rowid ::
  "('w::len word, 'x) env \<Rightarrow> ('w word, 'x) dbtup \<Rightarrow> u32 \<Rightarrow> local_key \<Rightarrow> u32 \<Rightarrow>
     error + ptr \<times> local_key \<times> u32 \<times> ('w word, 'x) dbtup" where
  "alloc_var_rowid env s alloc_size key out_frag_page_id =
     alloc_var_common (alloc_fix_rowid env) env s alloc_size key out_frag_page_id"

section \<open>Predicates of the claims and example states\<close>

text \<open>
  A page's \<open>list_index\<close> agrees with its free space: it is the class that
  \<^verbatim>\<open>calculate_free_list_impl\<close> gives, or it is the "unlisted" value \<^verbatim>\<open>MAX_FREE_LIST\<close> and the
  free space is below the minimum of class 0.
\<close>

definition list_index_consistent :: "page \<Rightarrow> bool" where
  "list_index_consistent p \<longleftrightarrow>
     calculate_free_list_impl (free_space p) = Inr (list_index p) \<or>
     (list_index p = MAX_FREE_LIST \<and> free_space p < c_min_list_size ! 0)"

text \<open>
  The pages at the heads of the free lists have at least the minimum free space of their
  class.
\<close>

definition heads_have_class_minimum :: "('h, 'x) dbtup \<Rightarrow> bool" where
  "heads_have_class_minimum s \<longleftrightarrow>
     (\<forall>i. i < MAX_FREE_LIST \<longrightarrow> free_var_page_array (fragrec s) i \<noteq> RNIL \<longrightarrow>
          c_min_list_size ! unat i \<le>
            free_space (c_page_pool s (free_var_page_array (fragrec s) i)))"

text \<open>
  Between two states nothing but the free lists has changed: the heads in
  \<open>free_var_page_array\<close> and the fields \<open>nextList\<close>, \<open>prevList\<close> and \<open>list_index\<close> of the
  pages may differ, everything else is the same.
\<close>

definition only_lists_changed :: "('h, 'x) dbtup \<Rightarrow> ('h, 'x) dbtup \<Rightarrow> bool" where
  "only_lists_changed s s' \<longleftrightarrow>
     collab s' = collab s \<and> tabrec s' = tabrec s \<and> cinBuffer s' = cinBuffer s \<and>
     m_empty_pages (fragrec s') = m_empty_pages (fragrec s) \<and>
     noOfVarPages (fragrec s') = noOfVarPages (fragrec s) \<and>
     m_var_page_chunks (fragrec s') = m_var_page_chunks (fragrec s) \<and>
     (\<forall>j. (c_page_pool s' j)\<lparr>nextList := 0, prevList := 0, list_index := 0\<rparr> =
          (c_page_pool s j)\<lparr>nextList := 0, prevList := 0, list_index := 0\<rparr>)"

text \<open>Example states: a page with no list links, and a block with one page.\<close>

definition blank_page :: page where
  "blank_page = \<lparr>free_space = 0, list_index = MAX_FREE_LIST, nextList = RNIL, prevList = RNIL,
     page_state = 0, physical_page_id = 0, frag_page_id = RNIL, chunk_size = 0,
     next_chunk = RNIL, insert_pos = 0, m_data = (\<lambda>_. 0)\<rparr>"

text \<open>Page 7 has 4080 free words and is the only page of the top list, list 3.\<close>

definition top_class_state :: "(u32, unit) dbtup" where
  "top_class_state =
     \<lparr>c_page_pool = (\<lambda>_. blank_page)(7 := blank_page\<lparr>free_space := 4080, list_index := 3\<rparr>),
      fragrec = \<lparr>free_var_page_array = (\<lambda>_. RNIL)(3 := 7), m_empty_pages = RNIL,
                 noOfVarPages = 1, m_var_page_chunks = 7\<rparr>,
      tabrec = \<lparr>m_fix_header_size = 0\<rparr>, cinBuffer = [], collab = ()\<rparr>"

text \<open>
  Page 7 is the only page of list 0, and an allocation has left it with 150 free words,
  below the minimum 200 of that list: it is not yet re-filed.
\<close>

definition stale_state :: "(u32, unit) dbtup" where
  "stale_state =
     \<lparr>c_page_pool = (\<lambda>_. blank_page)(7 := blank_page\<lparr>free_space := 150, list_index := 0\<rparr>),
      fragrec = \<lparr>free_var_page_array = (\<lambda>_. RNIL)(0 := 7), m_empty_pages = RNIL,
                 noOfVarPages = 1, m_var_page_chunks = 7\<rparr>,
      tabrec = \<lparr>m_fix_header_size = 0\<rparr>, cinBuffer = [], collab = ()\<rparr>"

text \<open>
  Example collaborators. The page allocator hands out consecutive page ids from
  \<open>pages_next\<close> while \<open>pages_left\<close> lasts. The fixed-part allocator counts the fixed parts
  in use, puts them on page 1 and fails at 16. The page layout engine lays the entries
  of a page out one after the other, each behind a word with its length; an entry's index
  is the offset of its length word; \<^verbatim>\<open>alloc_record\<close> fails when the record and its length
  word do not fit into the free space; nothing is compacted.
\<close>

record demo_collab =
  pages_next :: u32
  pages_left :: u32
  fix_used :: u32

definition demo_env :: "(u32, demo_collab) env" where
  "demo_env =
     \<lparr>HeaderSize = 2, SZ32 = 2, DATA_WORDS = 8160, ZTH_MM_FREE = 3, ZEMPTY_MM = 2,
      alloc_fix_rec = (\<lambda>s key out.
        if fix_used (collab s) < 16
        then (Ptr 1 (8 * fix_used (collab s)),
              \<lparr>m_page_no = 1, m_page_idx = fix_used (collab s)\<rparr>, 1,
              s\<lparr>collab := (collab s)\<lparr>fix_used := fix_used (collab s) + 1\<rparr>\<rparr>)
        else (Null, key, out, s)),
      alloc_fix_rowid = (\<lambda>s key out.
        if fix_used (collab s) < 16
        then (Ptr (m_page_no key) (8 * m_page_idx key), key, m_page_no key,
              s\<lparr>collab := (collab s)\<lparr>fix_used := fix_used (collab s) + 1\<rparr>\<rparr>)
        else (Null, key, out, s)),
      free_fix_rec = (\<lambda>s key pg. s\<lparr>collab := (collab s)\<lparr>fix_used := fix_used (collab s) - 1\<rparr>\<rparr>),
      allocConsPages = (\<lambda>x n r.
        if pages_left x = 0 then (0, r, x)
        else (let c = min n (pages_left x)
              in (c, pages_next x,
                  x\<lparr>pages_next := pages_next x + c, pages_left := pages_left x - c\<rparr>))),
      fix_get_ptr = (\<lambda>pg idx sz. 8 * idx),
      get_var_part_ptr = (\<lambda>t off. off + 2),
      var_page_init = (\<lambda>pg. pg\<lparr>free_space := 8159, insert_pos := 0, m_data := (\<lambda>_. 0)\<rparr>),
      alloc_record = (\<lambda>pg sz.
        if free_space pg < sz + 1 \<or> sz + 1 = 0 then Inl PageEngineFailed
        else Inr (pg\<lparr>free_space := free_space pg - (sz + 1),
                     insert_pos := insert_pos pg + (sz + 1),
                     m_data := (m_data pg)(unat (insert_pos pg) := sz)\<rparr>, insert_pos pg)),
      free_record = (\<lambda>pg idx.
        pg\<lparr>free_space := free_space pg + (m_data pg (unat idx) + 1),
           m_data := (m_data pg)(unat idx := 0)\<rparr>),
      get_ptr = (\<lambda>pg idx. idx + 1),
      is_space_behind_entry = (\<lambda>pg idx add. idx + 1 + m_data pg (unat idx) = insert_pos pg),
      set_entry_len = (\<lambda>pg idx n. pg\<lparr>m_data := (m_data pg)(unat idx := n)\<rparr>),
      reorg = (\<lambda>pg. pg),
      get_free_space_ptr = (\<lambda>pg. insert_pos pg),
      set_entry_offset = (\<lambda>pg idx off. pg),
      grow_entry = (\<lambda>pg idx add.
        pg\<lparr>free_space := free_space pg - add, insert_pos := insert_pos pg + add,
           m_data := (m_data pg)(unat idx := m_data pg (unat idx) + add)\<rparr>),
      get_entry_len = (\<lambda>pg idx. m_data pg (unat idx))\<rparr>"

text \<open>A fragment with no page yet; the page allocator has three pages left, from id 16.\<close>

definition fresh_state :: "(u32, demo_collab) dbtup" where
  "fresh_state =
     \<lparr>c_page_pool = (\<lambda>_. blank_page),
      fragrec = \<lparr>free_var_page_array = (\<lambda>_. RNIL), m_empty_pages = RNIL,
                 noOfVarPages = 0, m_var_page_chunks = RNIL\<rparr>,
      tabrec = \<lparr>m_fix_header_size = 6\<rparr>, cinBuffer = [],
      collab = \<lparr>pages_next = 16, pages_left = 3, fix_used = 0\<rparr>\<rparr>"

text \<open>What a call returned, without the state: \<open>None\<close> when it ended in an error.\<close>

definition returned :: "error + 'a \<times> 'b \<Rightarrow> 'a option" where
  "returned r = (case r of Inl e \<Rightarrow> None | Inr (a, b) \<Rightarrow> Some a)"

text \<open>
  Page 1 holds a fixed part whose variable part reference, at offset 2, is (7, 0). Page 7
  holds that variable part, 10 words long, as its only entry, and has 100 free words, so
  it is on no list. No page is listed, the list of empty pages is empty and the page
  allocator has no page left.
\<close>

definition shrink_state :: "(u32, demo_collab) dbtup" where
  "shrink_state =
     \<lparr>c_page_pool = (\<lambda>_. blank_page)
        (1 := blank_page\<lparr>m_data := (\<lambda>_. 0)(2 := 7, 3 := 0)\<rparr>,
         7 := blank_page\<lparr>free_space := 100, insert_pos := 11, m_data := (\<lambda>_. 0)(0 := 10)\<rparr>),
      fragrec = \<lparr>free_var_page_array = (\<lambda>_. RNIL), m_empty_pages = RNIL,
                 noOfVarPages = 1, m_var_page_chunks = 7\<rparr>,
      tabrec = \<lparr>m_fix_header_size = 6\<rparr>, cinBuffer = [],
      collab = \<lparr>pages_next = 16, pages_left = 0, fix_used = 1\<rparr>\<rparr>"


text \<open>
  As \<open>shrink_state\<close>, but page 7 is the one page of its chunk, is the head of list 3 and has
  8148 free words: its entry of 10 words, with the length word, is all it holds.
\<close>

definition last_entry_state :: "(u32, demo_collab) dbtup" where
  "last_entry_state =
     \<lparr>c_page_pool = (\<lambda>_. blank_page)
        (1 := blank_page\<lparr>m_data := (\<lambda>_. 0)(2 := 7, 3 := 0)\<rparr>,
         7 := blank_page\<lparr>free_space := 8148, list_index := 3, insert_pos := 11,
                chunk_size := 1, m_data := (\<lambda>_. 0)(0 := 10)\<rparr>),
      fragrec = \<lparr>free_var_page_array = (\<lambda>_. RNIL)(3 := 7), m_empty_pages = RNIL,
                 noOfVarPages = 1, m_var_page_chunks = 7\<rparr>,
      tabrec = \<lparr>m_fix_header_size = 6\<rparr>, cinBuffer = [],
      collab = \<lparr>pages_next = 16, pages_left = 0, fix_used = 1\<rparr>\<rparr>"

section \<open>Facts about the tables and the classifier\<close>

lemma c_max_list_size_eq: "c_max_list_size = [499, 999, 4079, 8159, 199]"
  by code_simp

lemma c_min_list_size_eq: "c_min_list_size = [200, 500, 1000, 4080, 0]"
  by code_simp

text \<open>The loop of \<^verbatim>\<open>calculate_free_list_impl\<close>, run on the configured table.\<close>

lemma calculate_free_list_impl_unfold:
  "calculate_free_list_impl fs =
     (if fs \<le> 499 then Inr 0 else if fs \<le> 999 then Inr 1
      else if fs \<le> 4079 then Inr 2 else if fs \<le> 8159 then Inr 3 else Inl RequireFailed)"
  by (simp add: calculate_free_list_impl_def calculate_free_list_loop.simps [of 0]
      calculate_free_list_loop.simps [of 1] calculate_free_list_loop.simps [of 2]
      calculate_free_list_loop.simps [of 3] calculate_free_list_loop.simps [of 4]
      MAX_FREE_LIST_def array_get_def c_max_list_size_eq)

lemma u32_less_5_cases: "unat (i::u32) < 5 \<Longrightarrow> i = 0 \<or> i = 1 \<or> i = 2 \<or> i = 3 \<or> i = 4"
proof -
  assume "unat i < 5"
  then have "unat i = 0 \<or> unat i = 1 \<or> unat i = 2 \<or> unat i = 3 \<or> unat i = 4" by arith
  then show ?thesis
    by (simp add: word_unat_eq_iff)
qed

lemma u32_less_numeral_iff:
  "(j::u32) < 1 \<longleftrightarrow> j = 0"
  "(j::u32) < 2 \<longleftrightarrow> j = 0 \<or> j = 1"
  "(j::u32) < 3 \<longleftrightarrow> j = 0 \<or> j = 1 \<or> j = 2"
  "(j::u32) < 4 \<longleftrightarrow> j = 0 \<or> j = 1 \<or> j = 2 \<or> j = 3"
  by (auto simp: word_less_nat_alt word_unat_eq_iff)

section \<open>Facts about the lists, the re-filing and the page search\<close>

lemma dl_add_free_space:
  "dl_add s li p = Inr s' \<Longrightarrow> free_space (c_page_pool s' j) = free_space (c_page_pool s j)"
  by (auto simp: dl_add_def Let_def fvpa_get_def fvpa_set_def split: sum.splits if_splits)

lemma dl_add_list_index:
  "dl_add s li p = Inr s' \<Longrightarrow> list_index (c_page_pool s' j) = list_index (c_page_pool s j)"
  by (auto simp: dl_add_def Let_def fvpa_get_def fvpa_set_def split: sum.splits if_splits)

lemma dl_remove_free_space:
  "dl_remove s li p = Inr s' \<Longrightarrow> free_space (c_page_pool s' j) = free_space (c_page_pool s j)"
  by (auto simp: dl_remove_def Let_def fvpa_get_def fvpa_set_def split: sum.splits if_splits)

lemma dl_remove_list_index:
  "dl_remove s li p = Inr s' \<Longrightarrow> list_index (c_page_pool s' j) = list_index (c_page_pool s j)"
  by (auto simp: dl_remove_def Let_def fvpa_get_def fvpa_set_def split: sum.splits if_splits)

lemma update_free_page_list_free_space:
  "update_free_page_list s i = Inr s' \<Longrightarrow>
     free_space (c_page_pool s' j) = free_space (c_page_pool s j)"
  unfolding update_free_page_list_def Let_def
  by (auto simp: dl_add_free_space dl_remove_free_space split: sum.splits if_splits)

lemma update_free_page_list_other_index:
  "update_free_page_list s i = Inr s' \<Longrightarrow> j \<noteq> i \<Longrightarrow>
     list_index (c_page_pool s' j) = list_index (c_page_pool s j)"
  unfolding update_free_page_list_def Let_def
  by (auto simp: dl_add_list_index dl_remove_list_index split: sum.splits if_splits)

lemma c_min_list_size_nth:
  "c_min_list_size ! 0 = 200" "c_min_list_size ! Suc 0 = 500" "c_min_list_size ! 2 = 1000"
  "c_min_list_size ! 3 = 4080" "c_min_list_size ! 4 = 0"
  by (simp_all add: c_min_list_size_eq)

lemma c_max_list_size_nth:
  "c_max_list_size ! 0 = 499" "c_max_list_size ! Suc 0 = 999" "c_max_list_size ! 2 = 4079"
  "c_max_list_size ! 3 = 8159" "c_max_list_size ! 4 = 199"
  by (simp_all add: c_max_list_size_eq)

lemma array_get_sizes:
  "array_get c_min_list_size li = Inr mn \<Longrightarrow>
     li = 0 \<or> li = 1 \<or> li = 2 \<or> li = 3 \<or> li = 4"
proof -
  assume "array_get c_min_list_size li = Inr mn"
  then have "unat li < 5"
    by (simp add: array_get_def c_min_list_size_eq split: if_splits)
  then show ?thesis by (rule u32_less_5_cases)
qed

text \<open>A page that stays where it is: its free space is inside the range of its index.\<close>

lemma in_range_consistent:
  assumes "array_get c_min_list_size li = Inr mn" "array_get c_max_list_size li = Inr mx"
    and "\<not> (fs < mn \<or> fs > mx)"
  shows "calculate_free_list_impl fs = Inr li \<or> (li = MAX_FREE_LIST \<and> fs < c_min_list_size ! 0)"
proof -
  from assms(1) consider "li = 0" | "li = 1" | "li = 2" | "li = 3" | "li = 4"
    using array_get_sizes by blast
  then show ?thesis
  proof cases
    case 1
    with assms show ?thesis
      by (simp add: array_get_def c_min_list_size_eq c_max_list_size_eq
          calculate_free_list_impl_unfold not_less)
  next
    case 2
    with assms have "500 \<le> fs" "fs \<le> 999"
      by (simp_all add: array_get_def c_min_list_size_eq c_max_list_size_eq not_less)
    moreover from this have "\<not> fs \<le> 499" by (auto simp: not_le elim: order_less_le_trans [rotated])
    ultimately show ?thesis using 2 by (simp add: calculate_free_list_impl_unfold)
  next
    case 3
    with assms have "1000 \<le> fs" "fs \<le> 4079"
      by (simp_all add: array_get_def c_min_list_size_eq c_max_list_size_eq not_less)
    moreover from this have "\<not> fs \<le> 999" by (auto simp: not_le elim: order_less_le_trans [rotated])
    moreover from this have "\<not> fs \<le> 499" by (auto simp: not_le elim: order_less_trans [rotated])
    ultimately show ?thesis using 3 by (simp add: calculate_free_list_impl_unfold)
  next
    case 4
    with assms have "4080 \<le> fs" "fs \<le> 8159"
      by (simp_all add: array_get_def c_min_list_size_eq c_max_list_size_eq not_less)
    moreover from this have "\<not> fs \<le> 4079" by (auto simp: not_le elim: order_less_le_trans [rotated])
    moreover from this have "\<not> fs \<le> 999" by (auto simp: not_le elim: order_less_trans [rotated])
    moreover from this have "\<not> fs \<le> 499" by (auto simp: not_le elim: order_less_trans [rotated])
    ultimately show ?thesis using 4 by (simp add: calculate_free_list_impl_unfold)
  next
    case 5
    with assms have "fs \<le> 199"
      by (simp add: array_get_def c_min_list_size_eq c_max_list_size_eq not_less)
    then have "fs < 200" by (rule order_le_less_trans) simp
    with 5 show ?thesis by (simp add: c_min_list_size_eq MAX_FREE_LIST_def)
  qed
qed

lemma update_free_page_list_index:
  assumes "update_free_page_list s i = Inr s'"
  shows "(\<exists>mn mx. array_get c_min_list_size (list_index (c_page_pool s i)) = Inr mn \<and>
            array_get c_max_list_size (list_index (c_page_pool s i)) = Inr mx \<and>
            \<not> (free_space (c_page_pool s i) < mn \<or> free_space (c_page_pool s i) > mx) \<and>
            list_index (c_page_pool s' i) = list_index (c_page_pool s i)) \<or>
         (\<exists>new mn'. calculate_free_list_impl (free_space (c_page_pool s i)) = Inr new \<and>
            array_get c_min_list_size new = Inr mn' \<and>
            (if free_space (c_page_pool s i) < mn'
             then new = 0 \<and> list_index (c_page_pool s' i) = MAX_FREE_LIST
             else list_index (c_page_pool s' i) = new))"
proof -
  define fs li where "fs = free_space (c_page_pool s i)" and "li = list_index (c_page_pool s i)"
  note d = update_free_page_list_def Let_def fs_def [symmetric] li_def [symmetric]
  from assms obtain mn where mn: "array_get c_min_list_size li = Inr mn"
    unfolding d by (cases "array_get c_min_list_size li") simp_all
  from assms mn obtain mx where mx: "array_get c_max_list_size li = Inr mx"
    unfolding d by (cases "array_get c_max_list_size li") simp_all
  show ?thesis
  proof (cases "fs < mn \<or> fs > mx")
    case False
    with assms mn mx have "s' = s" unfolding d by simp
    with False mn mx show ?thesis unfolding fs_def li_def by blast
  next
    case True
    with assms mn mx obtain new where new: "calculate_free_list_impl fs = Inr new"
      unfolding d by (cases "calculate_free_list_impl fs") simp_all
    from assms mn mx True new obtain s1 where
      s1: "(if li \<noteq> MAX_FREE_LIST then dl_remove s li i else Inr s) = Inr s1"
      unfolding d
      by (cases "if li \<noteq> MAX_FREE_LIST then dl_remove s li i else Inr s") simp_all
    from assms mn mx True new s1 obtain mn' where mn': "array_get c_min_list_size new = Inr mn'"
      unfolding d by (cases "array_get c_min_list_size new") simp_all
    have "if fs < mn' then new = 0 \<and> list_index (c_page_pool s' i) = MAX_FREE_LIST
          else list_index (c_page_pool s' i) = new"
    proof (cases "fs < mn'")
      case True
      with assms mn mx \<open>fs < mn \<or> fs > mx\<close> new s1 mn' show ?thesis
        unfolding d by (cases "new = 0") auto
    next
      case False
      with assms mn mx \<open>fs < mn \<or> fs > mx\<close> new s1 mn' show ?thesis
        unfolding d by (cases "dl_add s1 new i") auto
    qed
    with new mn' show ?thesis unfolding fs_def li_def by blast
  qed
qed

lemma update_free_page_list_consistent:
  assumes "update_free_page_list s i = Inr s'"
  shows "list_index_consistent (c_page_pool s' i)"
proof -
  have fs: "free_space (c_page_pool s' i) = free_space (c_page_pool s i)"
    using assms by (rule update_free_page_list_free_space)
  from update_free_page_list_index [OF assms] show ?thesis
  proof (elim disjE exE conjE)
    fix mn mx
    assume "array_get c_min_list_size (list_index (c_page_pool s i)) = Inr mn"
      "array_get c_max_list_size (list_index (c_page_pool s i)) = Inr mx"
      "\<not> (free_space (c_page_pool s i) < mn \<or> free_space (c_page_pool s i) > mx)"
      "list_index (c_page_pool s' i) = list_index (c_page_pool s i)"
    then show ?thesis
      using in_range_consistent [of "list_index (c_page_pool s i)" mn mx "free_space (c_page_pool s i)"]
      by (simp add: list_index_consistent_def fs)
  next
    fix new mn'
    assume "calculate_free_list_impl (free_space (c_page_pool s i)) = Inr new"
      "array_get c_min_list_size new = Inr mn'"
      "if free_space (c_page_pool s i) < mn'
       then new = 0 \<and> list_index (c_page_pool s' i) = MAX_FREE_LIST
       else list_index (c_page_pool s' i) = new"
    then show ?thesis
      by (auto simp: list_index_consistent_def fs array_get_def split: if_splits)
  qed
qed

lemma class_bounds_nat:
  "calculate_free_list_impl sz = Inr c \<Longrightarrow>
     (c = 0 \<and> unat sz \<le> 499) \<or> (c = 1 \<and> 499 < unat sz \<and> unat sz \<le> 999) \<or>
     (c = 2 \<and> 999 < unat sz \<and> unat sz \<le> 4079) \<or>
     (c = 3 \<and> 4079 < unat sz \<and> unat sz \<le> 8159)"
  by (auto simp: calculate_free_list_impl_unfold word_le_nat_alt split: if_splits)

lemma above_class_min:
  "calculate_free_list_impl sz = Inr c \<Longrightarrow> c < k \<Longrightarrow> k < MAX_FREE_LIST \<Longrightarrow>
     sz \<le> c_min_list_size ! unat k"
  by (auto dest!: class_bounds_nat
      simp: u32_less_numeral_iff MAX_FREE_LIST_def c_min_list_size_eq word_le_nat_alt)

lemma class_min_le:
  "calculate_free_list_impl fs = Inr new \<Longrightarrow> new \<noteq> 0 \<Longrightarrow> c_min_list_size ! unat new \<le> fs"
  by (auto dest!: class_bounds_nat simp: c_min_list_size_eq word_le_nat_alt)

lemma class_below_max:
  "calculate_free_list_impl fs = Inr new \<Longrightarrow> new < MAX_FREE_LIST"
  by (auto dest!: class_bounds_nat simp: MAX_FREE_LIST_def)

lemma dl_remove_returns: "li < MAX_FREE_LIST \<Longrightarrow> \<exists>s'. dl_remove s li p = Inr s'"
  by (simp add: dl_remove_def Let_def fvpa_set_def)

lemma dl_add_returns: "li < MAX_FREE_LIST \<Longrightarrow> \<exists>s'. dl_add s li p = Inr s'"
  by (simp add: dl_add_def Let_def fvpa_set_def fvpa_get_def)

lemma update_free_page_list_returns:
  assumes li: "list_index (c_page_pool s i) \<le> MAX_FREE_LIST"
    and fs: "free_space (c_page_pool s i) \<le> c_max_list_size ! unat (MAX_FREE_LIST - 1)"
  shows "\<exists>s'. update_free_page_list s i = Inr s'"
proof -
  define fs' li' where "fs' = free_space (c_page_pool s i)" and "li' = list_index (c_page_pool s i)"
  note d = update_free_page_list_def Let_def fs'_def [symmetric] li'_def [symmetric]
  from li have "unat li' < 5" by (simp add: li'_def MAX_FREE_LIST_def word_le_nat_alt)
  then have mn: "array_get c_min_list_size li' = Inr (c_min_list_size ! unat li')"
    and mx: "array_get c_max_list_size li' = Inr (c_max_list_size ! unat li')"
    by (simp_all add: array_get_def c_min_list_size_eq c_max_list_size_eq)
  show ?thesis
  proof (cases "fs' < c_min_list_size ! unat li' \<or> fs' > c_max_list_size ! unat li'")
    case False
    with mn mx show ?thesis unfolding d by simp
  next
    case True
    from fs have "fs' \<le> 8159" by (simp add: fs'_def c_max_list_size_eq MAX_FREE_LIST_def)
    then have "\<exists>new. calculate_free_list_impl fs' = Inr new"
      by (simp add: calculate_free_list_impl_unfold)
    then obtain new where new: "calculate_free_list_impl fs' = Inr new" by blast
    then have new4: "new < MAX_FREE_LIST" by (rule class_below_max)
    then have "unat new < 5" by (simp add: MAX_FREE_LIST_def word_less_nat_alt)
    then have mn': "array_get c_min_list_size new = Inr (c_min_list_size ! unat new)"
      by (simp add: array_get_def c_min_list_size_eq)
    have "\<exists>s1. (if li' \<noteq> MAX_FREE_LIST then dl_remove s li' i else Inr s) = Inr s1"
    proof (cases "li' = MAX_FREE_LIST")
      case True
      then show ?thesis by simp
    next
      case False
      with li have "li' < MAX_FREE_LIST" by (simp add: li'_def)
      with False show ?thesis by (simp add: dl_remove_returns)
    qed
    then obtain s1 where s1: "(if li' \<noteq> MAX_FREE_LIST then dl_remove s li' i else Inr s) = Inr s1"
      by blast
    show ?thesis
    proof (cases "fs' < c_min_list_size ! unat new")
      case lt: True
      with class_min_le [OF new] have "new = 0" by (auto simp: not_less [symmetric])
      with True mn mx new s1 mn' lt show ?thesis unfolding d by simp
    next
      case ge: False
      from dl_add_returns [OF new4] obtain s2 where "dl_add s1 new i = Inr s2" by blast
      with True mn mx new s1 mn' ge show ?thesis unfolding d by simp
    qed
  qed
qed

lemma get_alloc_page_loop_Some:
  "get_alloc_page_loop f i = Some p \<Longrightarrow>
     \<exists>k. i \<le> k \<and> k < MAX_FREE_LIST \<and> p = free_var_page_array f k \<and> p \<noteq> RNIL"
proof (induction f i rule: get_alloc_page_loop.induct)
  case (1 f i)
  show ?case
  proof (cases "i < MAX_FREE_LIST \<and> free_var_page_array f i = RNIL")
    case True
    with "1.prems" have "get_alloc_page_loop f (i + 1) = Some p"
      by (simp add: get_alloc_page_loop.simps [of f i])
    with True "1.IH" obtain k where "i + 1 \<le> k" "k < MAX_FREE_LIST"
      "p = free_var_page_array f k" "p \<noteq> RNIL" by auto
    moreover from True have "i \<le> i + 1"
      by (simp add: word_le_nat_alt unat_inc [of i MAX_FREE_LIST])
    ultimately show ?thesis by (metis order_trans)
  next
    case False
    with "1.prems" show ?thesis
      by (auto simp: get_alloc_page_loop.simps [of f i] split: if_splits)
  qed
qed

lemma get_alloc_page_scan_room:
  "get_alloc_page_scan pool sz p loop = r \<Longrightarrow> r = RNIL \<or> sz \<le> free_space (pool r)"
proof (induction pool sz p loop rule: get_alloc_page_scan.induct)
  case (1 pool sz p loop)
  then show ?case
    by (auto simp: get_alloc_page_scan.simps [of pool sz p loop] split: if_splits)
qed

lemma get_alloc_page_below_top:
  assumes c: "calculate_free_list_impl alloc_size = Inr c" and lt: "c < MAX_FREE_LIST - 1"
  shows "get_alloc_page s alloc_size =
           (case get_alloc_page_loop (fragrec s) (c + 1) of
              Some first \<Rightarrow> Inr first
            | None \<Rightarrow> Inr (get_alloc_page_scan (c_page_pool s) alloc_size
                         (free_var_page_array (fragrec s) c) 0))"
proof -
  from lt have "c = 0 \<or> c = 1 \<or> c = 2"
    by (simp add: MAX_FREE_LIST_def u32_less_numeral_iff)
  then show ?thesis
    using c by (auto simp: get_alloc_page_def MAX_FREE_LIST_def fvpa_get_def split: option.splits)
qed

lemma top_class_state_heads: "heads_have_class_minimum top_class_state"
  by (simp add: heads_have_class_minimum_def top_class_state_def MAX_FREE_LIST_def
      u32_less_numeral_iff RNIL_def blank_page_def c_min_list_size_eq)

section \<open>Facts about get_empty_var_page\<close>

lemma fresh_page_idem: "fresh_page z q (fresh_page z q pg) = fresh_page z q pg"
  by (simp add: fresh_page_def)

lemma get_empty_var_page_loop_pages:
  "get_empty_var_page_loop z pool i cnt p q =
     (if \<exists>k. k < unat cnt - unat i \<and> q = p + of_nat k then fresh_page z q (pool q) else pool q)"
proof (induction z pool i cnt p rule: get_empty_var_page_loop.induct)
  case (1 z pool i cnt p)
  show ?case
  proof (cases "i < cnt")
    case False
    then have "unat cnt - unat i = 0" by (simp add: word_less_nat_alt)
    with False show ?thesis by (simp add: get_empty_var_page_loop.simps [of z pool i cnt p])
  next
    case True
    then have n: "unat cnt - unat (i + 1) = unat cnt - unat i - 1" "0 < unat cnt - unat i"
      by (simp_all add: unat_inc word_less_nat_alt)
    have rng: "(\<exists>k. k < unat cnt - unat i - 1 \<and> q = p + 1 + of_nat k) \<longleftrightarrow>
               (\<exists>k. k < unat cnt - unat i \<and> k \<noteq> 0 \<and> q = p + of_nat k)" (is "?L \<longleftrightarrow> ?R")
    proof
      assume ?L
      then obtain k where "k < unat cnt - unat i - 1" "q = p + 1 + of_nat k" by blast
      then have "Suc k < unat cnt - unat i \<and> Suc k \<noteq> 0 \<and> q = p + of_nat (Suc k)" by simp
      then show ?R by blast
    next
      assume ?R
      then obtain k where k: "k < unat cnt - unat i" "k \<noteq> 0" "q = p + of_nat k" by blast
      then obtain k' where "k = Suc k'" by (cases k) auto
      with k have "k' < unat cnt - unat i - 1 \<and> q = p + 1 + of_nat k'" by simp
      then show ?L by blast
    qed
    from True have "get_empty_var_page_loop z pool i cnt p q =
        get_empty_var_page_loop z (pool(p := fresh_page z p (pool p))) (i + 1) cnt (p + 1) q"
      by (simp add: get_empty_var_page_loop.simps [of z pool i cnt p])
    also have "\<dots> = (if \<exists>k. k < unat cnt - unat i - 1 \<and> q = p + 1 + of_nat k
                     then fresh_page z q ((pool(p := fresh_page z p (pool p))) q)
                     else (pool(p := fresh_page z p (pool p))) q)"
      by (simp only: "1.IH" [OF True] n(1))
    also have "\<dots> = (if \<exists>k. k < unat cnt - unat i \<and> q = p + of_nat k
                     then fresh_page z q (pool q) else pool q)"
    proof (cases "q = p")
      case qp: True
      from n(2) have "0 < unat cnt - unat i \<and> p = p + of_nat 0" by simp
      then have ex: "\<exists>k. k < unat cnt - unat i \<and> p = p + of_nat k" by (rule exI)
      have "(if \<exists>k. k < unat cnt - unat i - 1 \<and> p = p + 1 + of_nat k
             then fresh_page z p ((pool(p := fresh_page z p (pool p))) p)
             else (pool(p := fresh_page z p (pool p))) p) = fresh_page z p (pool p)"
        by (simp only: fun_upd_same fresh_page_idem if_cancel)
      moreover have "(if \<exists>k. k < unat cnt - unat i \<and> p = p + of_nat k
                      then fresh_page z p (pool p) else pool p) = fresh_page z p (pool p)"
        using ex by (simp only: if_True)
      ultimately show ?thesis unfolding qp by (rule trans [OF _ sym])
    next
      case qp: False
      have "(\<exists>k. k < unat cnt - unat i \<and> k \<noteq> 0 \<and> q = p + of_nat k) \<longleftrightarrow>
            (\<exists>k. k < unat cnt - unat i \<and> q = p + of_nat k)" (is "?A \<longleftrightarrow> ?B")
      proof
        assume ?A then show ?B by blast
      next
        assume ?B
        then obtain k where k: "k < unat cnt - unat i" "q = p + of_nat k" by blast
        with qp have "k \<noteq> 0" by (cases k) auto
        with k show ?A by blast
      qed
      with rng have e: "(\<exists>k. k < unat cnt - unat i - 1 \<and> q = p + 1 + of_nat k) \<longleftrightarrow>
                        (\<exists>k. k < unat cnt - unat i \<and> q = p + of_nat k)" by (rule trans)
      have "(pool(p := fresh_page z p (pool p))) q = pool q" using qp by (rule fun_upd_other)
      then show ?thesis unfolding e by (simp only:)
    qed
    finally show ?thesis .
  qed
qed

lemma run_offset_neq:
  fixes cnt ret :: u32
  assumes "k < unat cnt" "k \<noteq> 0"
  shows "ret + of_nat k \<noteq> ret"
proof -
  have "unat cnt < 2 ^ LENGTH(32)" by (rule unsigned_less)
  with assms have "0 < k" "k < 2 ^ LENGTH(32)" by simp_all
  then have "(of_nat k :: u32) \<noteq> 0" by (rule of_nat_neq_0)
  then show ?thesis by simp
qed

lemma run_offset_last:
  fixes cnt ret :: u32
  assumes "k < unat cnt"
  shows "ret + of_nat k = ret + (cnt - 1) \<longleftrightarrow> \<not> Suc k < unat cnt"
proof -
  from assms have c0: "cnt \<noteq> 0" by (auto simp: unat_eq_0 [symmetric])
  have lt: "unat cnt < 2 ^ LENGTH(32)" by (rule unsigned_less)
  with assms have k: "k < 2 ^ LENGTH(32)" by simp
  have "ret + of_nat k = ret + (cnt - 1) \<longleftrightarrow> (of_nat k :: u32) = cnt - 1" by simp
  also have "\<dots> \<longleftrightarrow> k = unat (cnt - 1)"
  proof
    assume "(of_nat k :: u32) = cnt - 1"
    then show "k = unat (cnt - 1)" using k by (simp add: of_nat_inverse)
  next
    assume "k = unat (cnt - 1)"
    then show "(of_nat k :: u32) = cnt - 1" by simp
  qed
  also have "\<dots> \<longleftrightarrow> k = unat cnt - 1" using c0 by (simp add: unat_minus_one)
  also have "\<dots> \<longleftrightarrow> \<not> Suc k < unat cnt" using assms by arith
  finally show ?thesis .
qed

lemma get_empty_var_page_pop:
  "m_empty_pages (fragrec s) \<noteq> RNIL \<Longrightarrow>
     get_empty_var_page env s =
       (m_empty_pages (fragrec s),
        s\<lparr>fragrec := (fragrec s)\<lparr>m_empty_pages :=
             nextList (c_page_pool s (m_empty_pages (fragrec s)))\<rparr>\<rparr>)"
  by (simp add: get_empty_var_page_def Let_def)

lemma get_empty_var_page_none:
  "m_empty_pages (fragrec s) = RNIL \<Longrightarrow> allocConsPages env (collab s) 10 RNIL = (0, ret, x) \<Longrightarrow>
     get_empty_var_page env s = (RNIL, s\<lparr>collab := x\<rparr>)"
  by (simp add: get_empty_var_page_def Let_def)

lemma get_empty_var_page_run:
  assumes e: "m_empty_pages (fragrec s) = RNIL"
    and a: "allocConsPages env (collab s) 10 RNIL = (cnt, ret, x)" and c: "cnt \<noteq> 0"
  shows "\<exists>s'. get_empty_var_page env s = (ret, s') \<and>
           noOfVarPages (fragrec s') = noOfVarPages (fragrec s) + cnt \<and>
           collab s' = x \<and>
           free_var_page_array (fragrec s') = free_var_page_array (fragrec s) \<and>
           chunk_size (c_page_pool s' ret) = cnt \<and>
           next_chunk (c_page_pool s' ret) = m_var_page_chunks (fragrec s) \<and>
           m_var_page_chunks (fragrec s') = ret \<and>
           m_empty_pages (fragrec s') = (if 1 < cnt then ret + 1 else RNIL) \<and>
           (\<forall>k. 0 < k \<and> k < unat cnt \<longrightarrow>
                nextList (c_page_pool s' (ret + of_nat k)) =
                  (if Suc k < unat cnt then ret + of_nat (Suc k) else RNIL)) \<and>
           (\<forall>k. k < unat cnt \<longrightarrow>
                page_state (c_page_pool s' (ret + of_nat k)) = ZEMPTY_MM env \<and>
                physical_page_id (c_page_pool s' (ret + of_nat k)) = ret + of_nat k \<and>
                frag_page_id (c_page_pool s' (ret + of_nat k)) = RNIL \<and>
                prevList (c_page_pool s' (ret + of_nat k)) = RNIL)"
proof -
  let ?z = "ZEMPTY_MM env"
  define pool1 where "pool1 = get_empty_var_page_loop ?z (c_page_pool s) 0 cnt ret"
  define last where "last = ret + (cnt - 1)"
  define pool2 where
    "pool2 = (if cnt > 1 then pool1(last := (pool1 last)\<lparr>nextList := RNIL\<rparr>) else pool1)"
  define pool3 where
    "pool3 = pool2(ret := (pool2 ret)\<lparr>chunk_size := cnt,
                next_chunk := m_var_page_chunks (fragrec s)\<rparr>)"
  define s' where
    "s' = s\<lparr>c_page_pool := pool3,
            fragrec := (fragrec s)\<lparr>noOfVarPages := noOfVarPages (fragrec s) + cnt,
               m_empty_pages := (if cnt > 1 then ret + 1 else RNIL), m_var_page_chunks := ret\<rparr>,
            collab := x\<rparr>"
  have res: "get_empty_var_page env s = (ret, s')"
    using e a c
    by (simp add: get_empty_var_page_def Let_def pool1_def last_def pool2_def pool3_def s'_def)
  from c have c1: "1 < cnt \<longleftrightarrow> 1 < unat cnt"
    by (simp add: word_less_nat_alt)
  have p1: "pool1 (ret + of_nat k) = fresh_page ?z (ret + of_nat k) (c_page_pool s (ret + of_nat k))"
    if "k < unat cnt" for k
    using that unfolding pool1_def get_empty_var_page_loop_pages by auto
  have p2: "pool2 (ret + of_nat k) =
              (if 1 < unat cnt \<and> \<not> Suc k < unat cnt
               then (pool1 (ret + of_nat k))\<lparr>nextList := RNIL\<rparr> else pool1 (ret + of_nat k))"
    if "k < unat cnt" for k
  proof (cases "1 < cnt")
    case False
    then show ?thesis by (simp add: pool2_def c1)
  next
    case True
    have "pool2 (ret + of_nat k) =
            (if ret + of_nat k = ret + (cnt - 1)
             then (pool1 (ret + (cnt - 1)))\<lparr>nextList := RNIL\<rparr> else pool1 (ret + of_nat k))"
      using True unfolding pool2_def last_def by (simp only: if_True fun_upd_apply)
    also have "\<dots> = (if \<not> Suc k < unat cnt
             then (pool1 (ret + of_nat k))\<lparr>nextList := RNIL\<rparr> else pool1 (ret + of_nat k))"
      by (cases "ret + of_nat k = ret + (cnt - 1)")
         (simp_all only: run_offset_last [OF that, of ret, symmetric] if_True if_False)
    finally show ?thesis using True by (simp only: c1 simp_thms)
  qed
  have p3: "pool3 (ret + of_nat k) = pool2 (ret + of_nat k)" if "k < unat cnt" "k \<noteq> 0" for k
    unfolding pool3_def using run_offset_neq [OF that, of ret] by (rule fun_upd_other)
  have p30: "pool3 ret = (pool2 ret)\<lparr>chunk_size := cnt,
                next_chunk := m_var_page_chunks (fragrec s)\<rparr>"
    unfolding pool3_def by simp
  from c have c0: "0 < unat cnt" by (simp add: unat_gt_0)
  have p20: "pool2 ret = (if 1 < unat cnt \<and> \<not> Suc 0 < unat cnt
               then (pool1 ret)\<lparr>nextList := RNIL\<rparr> else pool1 ret)"
    using p2 [OF c0] by simp
  have p10: "pool1 ret = fresh_page ?z ret (c_page_pool s ret)"
    using p1 [OF c0] by simp
  have next_k: "nextList (c_page_pool s' (ret + of_nat k)) =
                  (if Suc k < unat cnt then ret + of_nat (Suc k) else RNIL)"
    if "0 < k \<and> k < unat cnt" for k
  proof -
    from that have k: "k < unat cnt" "k \<noteq> 0" by simp_all
    then have "1 < unat cnt" by simp
    then show ?thesis
      by (simp add: s'_def p3 [OF k] p2 [OF k(1)] p1 [OF k(1)] fresh_page_def)
  qed
  have fields_k: "page_state (c_page_pool s' (ret + of_nat k)) = ?z \<and>
                physical_page_id (c_page_pool s' (ret + of_nat k)) = ret + of_nat k \<and>
                frag_page_id (c_page_pool s' (ret + of_nat k)) = RNIL \<and>
                prevList (c_page_pool s' (ret + of_nat k)) = RNIL"
    if k: "k < unat cnt" for k
  proof (cases "k = 0")
    case True
    then show ?thesis by (simp add: s'_def p30 p20 p10 fresh_page_def)
  next
    case False
    then show ?thesis
      by (simp add: s'_def p3 [OF k False] p2 [OF k] p1 [OF k] fresh_page_def)
  qed
  have "noOfVarPages (fragrec s') = noOfVarPages (fragrec s) + cnt \<and>
        collab s' = x \<and>
        free_var_page_array (fragrec s') = free_var_page_array (fragrec s) \<and>
        chunk_size (c_page_pool s' ret) = cnt \<and>
        next_chunk (c_page_pool s' ret) = m_var_page_chunks (fragrec s) \<and>
        m_var_page_chunks (fragrec s') = ret \<and>
        m_empty_pages (fragrec s') = (if 1 < cnt then ret + 1 else RNIL)"
    by (simp add: s'_def p30)
  with res next_k fields_k show ?thesis by blast
qed

section \<open>Facts about what the re-filing leaves alone, and about alloc_var_part\<close>

lemma only_lists_changed_refl: "only_lists_changed s s"
  by (simp add: only_lists_changed_def)

lemma only_lists_changed_trans:
  "only_lists_changed s s1 \<Longrightarrow> only_lists_changed s1 s2 \<Longrightarrow> only_lists_changed s s2"
  by (simp add: only_lists_changed_def)

lemma dl_add_only_lists: "dl_add s li p = Inr s' \<Longrightarrow> only_lists_changed s s'"
  by (auto simp: dl_add_def Let_def fvpa_get_def fvpa_set_def only_lists_changed_def
      split: sum.splits if_splits)

lemma dl_remove_only_lists: "dl_remove s li p = Inr s' \<Longrightarrow> only_lists_changed s s'"
  by (auto simp: dl_remove_def Let_def fvpa_get_def fvpa_set_def only_lists_changed_def
      split: sum.splits if_splits)

lemma set_list_index_only_lists:
  "only_lists_changed s
     (s\<lparr>c_page_pool := (c_page_pool s)(i := (c_page_pool s i)\<lparr>list_index := v\<rparr>)\<rparr>)"
  by (simp add: only_lists_changed_def)

lemma update_free_page_list_steps:
  assumes "update_free_page_list s i = Inr s'"
  shows "s' = s \<or>
         (\<exists>s1 s2 v. (s1 = s \<or> dl_remove s (list_index (c_page_pool s i)) i = Inr s1) \<and>
            (s2 = s1 \<or> dl_add s1 v i = Inr s2) \<and>
            s' = s2\<lparr>c_page_pool := (c_page_pool s2)(i := (c_page_pool s2 i)\<lparr>list_index := v\<rparr>)\<rparr>)"
proof -
  define fs li where "fs = free_space (c_page_pool s i)" and "li = list_index (c_page_pool s i)"
  note d = update_free_page_list_def Let_def fs_def [symmetric] li_def [symmetric]
  from assms obtain mn where mn: "array_get c_min_list_size li = Inr mn"
    unfolding d by (cases "array_get c_min_list_size li") simp_all
  from assms mn obtain mx where mx: "array_get c_max_list_size li = Inr mx"
    unfolding d by (cases "array_get c_max_list_size li") simp_all
  show ?thesis
  proof (cases "fs < mn \<or> fs > mx")
    case False
    with assms mn mx have "s' = s" unfolding d by simp
    then show ?thesis by simp
  next
    case True
    with assms mn mx obtain new where new: "calculate_free_list_impl fs = Inr new"
      unfolding d by (cases "calculate_free_list_impl fs") simp_all
    from assms mn mx True new obtain s1 where
      s1: "(if li \<noteq> MAX_FREE_LIST then dl_remove s li i else Inr s) = Inr s1"
      unfolding d
      by (cases "if li \<noteq> MAX_FREE_LIST then dl_remove s li i else Inr s") simp_all
    then have s1': "s1 = s \<or> dl_remove s li i = Inr s1" by (auto split: if_splits)
    from assms mn mx True new s1 obtain mn' where mn': "array_get c_min_list_size new = Inr mn'"
      unfolding d by (cases "array_get c_min_list_size new") simp_all
    have "\<exists>s2 v. (s2 = s1 \<or> dl_add s1 v i = Inr s2) \<and>
            s' = s2\<lparr>c_page_pool := (c_page_pool s2)(i := (c_page_pool s2 i)\<lparr>list_index := v\<rparr>)\<rparr>"
    proof (cases "fs < mn'")
      case lt: True
      with assms mn mx True new s1 mn'
      have "s' = s1\<lparr>c_page_pool := (c_page_pool s1)
              (i := (c_page_pool s1 i)\<lparr>list_index := MAX_FREE_LIST\<rparr>)\<rparr>"
        unfolding d by (cases "new = 0") auto
      then show ?thesis by blast
    next
      case ge: False
      with assms mn mx True new s1 mn' obtain s2 where "dl_add s1 new i = Inr s2"
        "s' = s2\<lparr>c_page_pool := (c_page_pool s2)(i := (c_page_pool s2 i)\<lparr>list_index := new\<rparr>)\<rparr>"
        unfolding d by (cases "dl_add s1 new i") auto
      then show ?thesis by blast
    qed
    with s1' show ?thesis unfolding li_def by blast
  qed
qed

lemma update_free_page_list_only_lists:
  assumes "update_free_page_list s i = Inr s'"
  shows "only_lists_changed s s'"
proof (cases "s' = s")
  case True
  then show ?thesis by (simp add: only_lists_changed_refl)
next
  case False
  with update_free_page_list_steps [OF assms] obtain s1 s2 v where
    a: "s1 = s \<or> dl_remove s (list_index (c_page_pool s i)) i = Inr s1"
      "s2 = s1 \<or> dl_add s1 v i = Inr s2"
      "s' = s2\<lparr>c_page_pool := (c_page_pool s2)(i := (c_page_pool s2 i)\<lparr>list_index := v\<rparr>)\<rparr>"
    by blast
  from a(1) have 1: "only_lists_changed s s1"
    by (auto simp: only_lists_changed_refl dl_remove_only_lists)
  from a(2) have 2: "only_lists_changed s1 s2"
    by (auto simp: only_lists_changed_refl dl_add_only_lists)
  from a(3) have 3: "only_lists_changed s2 s'" by (simp add: set_list_index_only_lists)
  from 1 2 3 show ?thesis by (blast intro: only_lists_changed_trans)
qed

lemma only_lists_changed_page:
  assumes "only_lists_changed s s'"
  shows "free_space (c_page_pool s' j) = free_space (c_page_pool s j)"
    and "page_state (c_page_pool s' j) = page_state (c_page_pool s j)"
    and "chunk_size (c_page_pool s' j) = chunk_size (c_page_pool s j)"
    and "next_chunk (c_page_pool s' j) = next_chunk (c_page_pool s j)"
    and "insert_pos (c_page_pool s' j) = insert_pos (c_page_pool s j)"
    and "m_data (c_page_pool s' j) = m_data (c_page_pool s j)"
proof -
  from assms have e: "(c_page_pool s' j)\<lparr>nextList := 0, prevList := 0, list_index := 0\<rparr> =
          (c_page_pool s j)\<lparr>nextList := 0, prevList := 0, list_index := 0\<rparr>"
    by (simp add: only_lists_changed_def)
  from arg_cong [OF e, of free_space]
  show "free_space (c_page_pool s' j) = free_space (c_page_pool s j)" by simp
  from arg_cong [OF e, of page_state]
  show "page_state (c_page_pool s' j) = page_state (c_page_pool s j)" by simp
  from arg_cong [OF e, of chunk_size]
  show "chunk_size (c_page_pool s' j) = chunk_size (c_page_pool s j)" by simp
  from arg_cong [OF e, of next_chunk]
  show "next_chunk (c_page_pool s' j) = next_chunk (c_page_pool s j)" by simp
  from arg_cong [OF e, of insert_pos]
  show "insert_pos (c_page_pool s' j) = insert_pos (c_page_pool s j)" by simp
  from arg_cong [OF e, of m_data]
  show "m_data (c_page_pool s' j) = m_data (c_page_pool s j)" by simp
qed

lemma only_lists_changed_frag:
  "only_lists_changed s s' \<Longrightarrow>
     collab s' = collab s \<and> tabrec s' = tabrec s \<and>
     m_empty_pages (fragrec s') = m_empty_pages (fragrec s) \<and>
     noOfVarPages (fragrec s') = noOfVarPages (fragrec s) \<and>
     m_var_page_chunks (fragrec s') = m_var_page_chunks (fragrec s)"
  by (simp add: only_lists_changed_def)

lemma dl_add_head:
  "dl_add s li p = Inr s' \<Longrightarrow> free_var_page_array (fragrec s') li = p"
  by (auto simp: dl_add_def Let_def fvpa_get_def fvpa_set_def split: sum.splits if_splits)

lemma alloc_var_part_on_result:
  "alloc_var_part_on env s i sz = Inr (p, key', s') \<Longrightarrow>
     \<exists>rec idx. alloc_record env (c_page_pool s i) sz = Inr (rec, idx) \<and>
        update_free_page_list (s\<lparr>c_page_pool := (c_page_pool s)(i := rec)\<rparr>) i = Inr s' \<and>
        key' = \<lparr>m_page_no = i, m_page_idx = idx\<rparr> \<and>
        p = Ptr i (get_ptr env (c_page_pool s' i) idx)"
  by (auto simp: alloc_var_part_on_def split: sum.splits prod.splits)

lemma alloc_var_part_listed:
  "get_alloc_page s (alloc_size + 1) = Inr i \<Longrightarrow> i \<noteq> RNIL \<Longrightarrow>
     alloc_var_part env s alloc_size key = alloc_var_part_on env s i alloc_size"
  by (simp add: alloc_var_part_def)

lemma alloc_var_part_none:
  "get_alloc_page s (alloc_size + 1) = Inr RNIL \<Longrightarrow> get_empty_var_page env s = (RNIL, s1) \<Longrightarrow>
     alloc_var_part env s alloc_size key = Inr (Null, key, s1)"
  by (simp add: alloc_var_part_def)

lemma alloc_var_part_fresh:
  assumes "get_alloc_page s (alloc_size + 1) = Inr RNIL"
    and "get_empty_var_page env s = (pg, s1)" and "pg \<noteq> RNIL"
    and "alloc_var_part env s alloc_size key = Inr r"
  shows "\<exists>s3. dl_add (s1\<lparr>c_page_pool := (c_page_pool s1)
                      (pg := (var_page_init env (c_page_pool s1 pg))
                         \<lparr>list_index := MAX_FREE_LIST - 1\<rparr>)\<rparr>) (MAX_FREE_LIST - 1) pg = Inr s3 \<and>
          alloc_var_part_on env
            (s3\<lparr>c_page_pool := (c_page_pool s3)
                 (pg := (c_page_pool s3 pg)\<lparr>page_state := ZTH_MM_FREE env\<rparr>)\<rparr>) pg alloc_size = Inr r"
  using assms by (simp add: alloc_var_part_def Let_def split: sum.splits)



lemma alloc_var_part_structure:
  assumes "alloc_var_part env s alloc_size key = Inr (p, key', s')"
  shows "\<exists>i. get_alloc_page s (alloc_size + 1) = Inr i \<and>
           (p = Null \<longleftrightarrow> i = RNIL \<and> fst (get_empty_var_page env s) = RNIL) \<and>
           (p = Null \<longrightarrow> key' = key \<and> s' = snd (get_empty_var_page env s)) \<and>
           (i \<noteq> RNIL \<longrightarrow>
              collab s' = collab s \<and> m_empty_pages (fragrec s') = m_empty_pages (fragrec s) \<and>
              noOfVarPages (fragrec s') = noOfVarPages (fragrec s)) \<and>
           (p \<noteq> Null \<longrightarrow>
              (\<exists>s0 rec idx pg.
                  pg = (if i \<noteq> RNIL then i else fst (get_empty_var_page env s)) \<and>
                  pg \<noteq> RNIL \<and>
                  (i \<noteq> RNIL \<longrightarrow> s0 = s) \<and>
                  (i = RNIL \<longrightarrow>
                     free_space (c_page_pool s0 pg) =
                       free_space (var_page_init env
                         (c_page_pool (snd (get_empty_var_page env s)) pg)) \<and>
                     list_index (c_page_pool s0 pg) = MAX_FREE_LIST - 1 \<and>
                     free_var_page_array (fragrec s0) (MAX_FREE_LIST - 1) = pg \<and>
                     page_state (c_page_pool s0 pg) = ZTH_MM_FREE env) \<and>
                  alloc_record env (c_page_pool s0 pg) alloc_size = Inr (rec, idx) \<and>
                  update_free_page_list (s0\<lparr>c_page_pool := (c_page_pool s0)(pg := rec)\<rparr>) pg
                    = Inr s' \<and>
                  key' = \<lparr>m_page_no = pg, m_page_idx = idx\<rparr> \<and>
                  p = Ptr pg (get_ptr env (c_page_pool s' pg) idx) \<and>
                  list_index_consistent (c_page_pool s' pg)))"
proof -
  from assms obtain i where i: "get_alloc_page s (alloc_size + 1) = Inr i"
    by (cases "get_alloc_page s (alloc_size + 1)") (simp_all add: alloc_var_part_def)
  obtain pg s1 where g: "get_empty_var_page env s = (pg, s1)"
    by (cases "get_empty_var_page env s") auto
  show ?thesis
  proof (cases "i = RNIL")
    case False
    with i assms have on: "alloc_var_part_on env s i alloc_size = Inr (p, key', s')"
      by (simp add: alloc_var_part_listed)
    from alloc_var_part_on_result [OF on] obtain rec idx where
      r: "alloc_record env (c_page_pool s i) alloc_size = Inr (rec, idx)"
        "update_free_page_list (s\<lparr>c_page_pool := (c_page_pool s)(i := rec)\<rparr>) i = Inr s'"
        "key' = \<lparr>m_page_no = i, m_page_idx = idx\<rparr>"
        "p = Ptr i (get_ptr env (c_page_pool s' i) idx)" by blast
    from update_free_page_list_only_lists [OF r(2)]
    have "collab s' = collab s \<and> m_empty_pages (fragrec s') = m_empty_pages (fragrec s) \<and>
          noOfVarPages (fragrec s') = noOfVarPages (fragrec s)"
      by (auto dest: only_lists_changed_frag)
    moreover have "list_index_consistent (c_page_pool s' i)"
      using r(2) by (rule update_free_page_list_consistent)
    ultimately show ?thesis using i False r by auto
  next
    case True
    show ?thesis
    proof (cases "pg = RNIL")
      case pg: True
      with i True g assms have "p = Null" "key' = key" "s' = s1"
        by (simp_all add: alloc_var_part_none)
      with i True g pg show ?thesis by simp
    next
      case pg: False
      from alloc_var_part_fresh [OF i [unfolded True] g pg assms] obtain s3 where
        s3: "dl_add (s1\<lparr>c_page_pool := (c_page_pool s1)
                      (pg := (var_page_init env (c_page_pool s1 pg))
                         \<lparr>list_index := MAX_FREE_LIST - 1\<rparr>)\<rparr>) (MAX_FREE_LIST - 1) pg = Inr s3"
        and on: "alloc_var_part_on env
            (s3\<lparr>c_page_pool := (c_page_pool s3)
                 (pg := (c_page_pool s3 pg)\<lparr>page_state := ZTH_MM_FREE env\<rparr>)\<rparr>) pg alloc_size
            = Inr (p, key', s')" by blast
      define s0 where "s0 = s3\<lparr>c_page_pool := (c_page_pool s3)
                 (pg := (c_page_pool s3 pg)\<lparr>page_state := ZTH_MM_FREE env\<rparr>)\<rparr>"
      from alloc_var_part_on_result [OF on [folded s0_def]] obtain rec idx where
        r: "alloc_record env (c_page_pool s0 pg) alloc_size = Inr (rec, idx)"
          "update_free_page_list (s0\<lparr>c_page_pool := (c_page_pool s0)(pg := rec)\<rparr>) pg = Inr s'"
          "key' = \<lparr>m_page_no = pg, m_page_idx = idx\<rparr>"
          "p = Ptr pg (get_ptr env (c_page_pool s' pg) idx)" by blast
      have f: "free_space (c_page_pool s0 pg) =
                 free_space (var_page_init env (c_page_pool s1 pg)) \<and>
               list_index (c_page_pool s0 pg) = MAX_FREE_LIST - 1 \<and>
               free_var_page_array (fragrec s0) (MAX_FREE_LIST - 1) = pg \<and>
               page_state (c_page_pool s0 pg) = ZTH_MM_FREE env"
        using dl_add_free_space [OF s3, of pg] dl_add_list_index [OF s3, of pg] dl_add_head [OF s3]
        by (simp add: s0_def)
      have "list_index_consistent (c_page_pool s' pg)"
        using r(2) by (rule update_free_page_list_consistent)
      with i True g pg r f show ?thesis by auto
    qed
  qed
qed

section \<open>Facts about realloc_var_part\<close>

lemma realloc_reorg_result:
  "realloc_reorg env s pagePtr idx oldsz add = Inr (p, add', s1) \<Longrightarrow>
     (\<exists>off. p = Ptr pagePtr off) \<and> collab s1 = collab s \<and> fragrec s1 = fragrec s \<and>
     tabrec s1 = tabrec s \<and> add' = add + oldsz"
  by (auto simp: realloc_reorg_def Let_def read_words_def write_words_def split: sum.splits)

lemma realloc_in_place:
  assumes c: "var_part_ref_copyout (c_page_pool s) refptr = Inr oldref"
    and f: "newsz - oldsz \<le> free_space (c_page_pool s pagePtr)"
    and r: "realloc_var_part env s pagePtr refptr oldsz newsz = Inr (p, s')"
  shows "(\<exists>off. p = Ptr pagePtr off) \<and> collab s' = collab s \<and>
         m_empty_pages (fragrec s') = m_empty_pages (fragrec s) \<and>
         noOfVarPages (fragrec s') = noOfVarPages (fragrec s) \<and>
         list_index_consistent (c_page_pool s' pagePtr)"
proof -
  define idx where "idx = m_page_idx oldref"
  define pageP where "pageP = c_page_pool s pagePtr"
  define step where "step =
    (if \<not> is_space_behind_entry env pageP idx (newsz - oldsz)
     then realloc_reorg env s pagePtr idx oldsz (newsz - oldsz)
     else Inr (Ptr pagePtr (get_ptr env pageP idx), newsz - oldsz, s))"
  from r c f obtain q add' s1 where st: "step = Inr (q, add', s1)"
    and u: "update_free_page_list
              (s1\<lparr>c_page_pool := (c_page_pool s1)
                   (pagePtr := grow_entry env (c_page_pool s1 pagePtr) idx add')\<rparr>) pagePtr
            = Inr s'" and qp: "q = p"
    unfolding realloc_var_part_def Let_def step_def idx_def pageP_def
    by (auto split: sum.splits)
  from st have q: "(\<exists>off. q = Ptr pagePtr off) \<and> collab s1 = collab s \<and> fragrec s1 = fragrec s"
    unfolding step_def by (auto split: if_splits dest: realloc_reorg_result)
  from update_free_page_list_only_lists [OF u] q
  have "collab s' = collab s \<and> m_empty_pages (fragrec s') = m_empty_pages (fragrec s) \<and>
        noOfVarPages (fragrec s') = noOfVarPages (fragrec s)"
    by (auto dest!: only_lists_changed_frag)
  moreover have "list_index_consistent (c_page_pool s' pagePtr)"
    using u by (rule update_free_page_list_consistent)
  ultimately show ?thesis using q qp by simp
qed

lemma realloc_relocates:
  "var_part_ref_copyout (c_page_pool s) refptr = Inr oldref \<Longrightarrow>
   free_space (c_page_pool s pagePtr) < newsz - oldsz \<Longrightarrow>
     realloc_var_part env s pagePtr refptr oldsz newsz =
       realloc_move env s pagePtr refptr oldref oldsz newsz"
  by (simp add: realloc_var_part_def Let_def not_le [symmetric])

lemma realloc_move_null:
  "alloc_var_part env s newsz local_key_uninit = Inr (Null, k, s1) \<Longrightarrow>
     realloc_move env s pagePtr refptr oldref oldsz newsz = Inr (Null, s1)"
  by (simp add: realloc_move_def Let_def)

lemma realloc_simple_returns:
  assumes c: "var_part_ref_copyout (c_page_pool s) refptr = Inr oldref"
    and f: "newsz - oldsz \<le> free_space (c_page_pool s pagePtr)"
    and b: "is_space_behind_entry env (c_page_pool s pagePtr) (m_page_idx oldref) (newsz - oldsz)"
    and l: "list_index (grow_entry env (c_page_pool s pagePtr) (m_page_idx oldref) (newsz - oldsz))
              \<le> MAX_FREE_LIST"
    and m: "free_space (grow_entry env (c_page_pool s pagePtr) (m_page_idx oldref) (newsz - oldsz))
              \<le> c_max_list_size ! unat (MAX_FREE_LIST - 1)"
  shows "\<exists>s'. realloc_var_part env s pagePtr refptr oldsz newsz =
           Inr (Ptr pagePtr (get_ptr env (c_page_pool s pagePtr) (m_page_idx oldref)), s')"
proof -
  let ?s1 = "s\<lparr>c_page_pool := (c_page_pool s)
               (pagePtr := grow_entry env (c_page_pool s pagePtr) (m_page_idx oldref)
                  (newsz - oldsz))\<rparr>"
  from l m have "\<exists>s'. update_free_page_list ?s1 pagePtr = Inr s'"
    by (intro update_free_page_list_returns) simp_all
  then obtain s' where "update_free_page_list ?s1 pagePtr = Inr s'" by blast
  with c f b show ?thesis by (simp add: realloc_var_part_def Let_def)
qed

lemma u32_sub_wraps:
  "(newsz::u32) < oldsz \<Longrightarrow> unat (newsz - oldsz) = 2 ^ 32 - (unat oldsz - unat newsz)"
proof -
  assume "newsz < oldsz"
  then have lt: "unat newsz < unat oldsz" by (simp add: word_less_nat_alt)
  have "unat oldsz < 2 ^ 32" using unsigned_less [of oldsz] by simp
  with lt show ?thesis by (simp add: unat_sub_if_size word_size)
qed

lemma shrink_state_facts:
  "var_part_ref_copyout (c_page_pool shrink_state) (Ptr 1 2) = Inr \<lparr>m_page_no = 7, m_page_idx = 0\<rparr>"
  "get_entry_len demo_env (c_page_pool shrink_state 7) 0 = 10"
  "free_space (c_page_pool shrink_state 7) = 100"
  "is_space_behind_entry demo_env (c_page_pool shrink_state 7) 0 0"
  "get_ptr demo_env (c_page_pool shrink_state 7) 0 = 1"
  "list_index (grow_entry demo_env (c_page_pool shrink_state 7) 0 0) \<le> MAX_FREE_LIST"
  "free_space (grow_entry demo_env (c_page_pool shrink_state 7) 0 0)
     \<le> c_max_list_size ! unat (MAX_FREE_LIST - 1)"
  "returned (alloc_var_part demo_env shrink_state 5 local_key_uninit) = Some Null"
  by code_simp+

lemma returned_Some:
  "returned r = Some a \<Longrightarrow> \<exists>b. r = Inr (a, b)"
  by (auto simp: returned_def split: sum.splits prod.splits)





section \<open>Facts about alloc_var_rec, alloc_var_rowid and free_var_rec\<close>

lemma get_empty_var_page_tabrec:
  "tabrec (snd (get_empty_var_page env s)) = tabrec s \<and>
   cinBuffer (snd (get_empty_var_page env s)) = cinBuffer s"
  by (simp add: get_empty_var_page_def Let_def split: prod.splits)

lemma alloc_var_part_on_tabrec:
  assumes "alloc_var_part_on env s i sz = Inr (p, k, s')"
  shows "tabrec s' = tabrec s"
proof -
  from alloc_var_part_on_result [OF assms] obtain rec where
    "update_free_page_list (s\<lparr>c_page_pool := (c_page_pool s)(i := rec)\<rparr>) i = Inr s'" by blast
  from only_lists_changed_frag [OF update_free_page_list_only_lists [OF this]]
  show ?thesis by simp
qed

lemma alloc_var_part_tabrec:
  assumes "alloc_var_part env s sz key = Inr (p, k, s')"
  shows "tabrec s' = tabrec s"
proof -
  from assms obtain i where i: "get_alloc_page s (sz + 1) = Inr i"
    by (cases "get_alloc_page s (sz + 1)") (simp_all add: alloc_var_part_def)
  obtain pg s1 where g: "get_empty_var_page env s = (pg, s1)"
    by (cases "get_empty_var_page env s") auto
  with get_empty_var_page_tabrec [of env s] have t1: "tabrec s1 = tabrec s" by simp
  show ?thesis
  proof (cases "i = RNIL")
    case False
    with i assms have "alloc_var_part_on env s i sz = Inr (p, k, s')"
      by (simp add: alloc_var_part_listed)
    then show ?thesis by (rule alloc_var_part_on_tabrec)
  next
    case True
    show ?thesis
    proof (cases "pg = RNIL")
      case pg: True
      with i True g assms have "s' = s1" by (simp add: alloc_var_part_none)
      with t1 show ?thesis by simp
    next
      case pg: False
      from alloc_var_part_fresh [OF i [unfolded True] g pg assms] obtain s3 where
        s3: "dl_add (s1\<lparr>c_page_pool := (c_page_pool s1)
                      (pg := (var_page_init env (c_page_pool s1 pg))
                         \<lparr>list_index := MAX_FREE_LIST - 1\<rparr>)\<rparr>) (MAX_FREE_LIST - 1) pg = Inr s3"
        and on: "alloc_var_part_on env
            (s3\<lparr>c_page_pool := (c_page_pool s3)
                 (pg := (c_page_pool s3 pg)\<lparr>page_state := ZTH_MM_FREE env\<rparr>)\<rparr>) pg sz
            = Inr (p, k, s')" by blast
      from only_lists_changed_frag [OF dl_add_only_lists [OF s3]] have "tabrec s3 = tabrec s1"
        by simp
      with alloc_var_part_on_tabrec [OF on] t1 show ?thesis by simp
    qed
  qed
qed

lemma alloc_var_part_null:
  assumes a: "alloc_var_part env s sz key = Inr (Null, k, s')"
    and ok: "fst (allocConsPages env (collab s) 10 RNIL) \<noteq> 0 \<longrightarrow>
             fst (snd (allocConsPages env (collab s) 10 RNIL)) \<noteq> RNIL"
  shows "s' = s\<lparr>collab := snd (snd (allocConsPages env (collab s) 10 RNIL))\<rparr> \<and>
         fst (allocConsPages env (collab s) 10 RNIL) = 0 \<and> k = key"
proof -
  from alloc_var_part_structure [OF a]
  have g: "fst (get_empty_var_page env s) = RNIL" "k = key" "s' = snd (get_empty_var_page env s)"
    by auto
  obtain cnt ret x where al: "allocConsPages env (collab s) 10 RNIL = (cnt, ret, x)"
    by (cases "allocConsPages env (collab s) 10 RNIL") auto
  have e: "m_empty_pages (fragrec s) = RNIL"
  proof (rule ccontr)
    assume "m_empty_pages (fragrec s) \<noteq> RNIL"
    with g(1) show False by (simp add: get_empty_var_page_pop)
  qed
  have c0: "cnt = 0"
  proof (rule ccontr)
    assume n: "cnt \<noteq> 0"
    from get_empty_var_page_run [OF e al n] obtain t where
      "get_empty_var_page env s = (ret, t)" by blast
    with g(1) ok al n show False by simp
  qed
  with e al g show ?thesis by (simp add: get_empty_var_page_none)
qed

lemma alloc_var_common_cases:
  fixes env :: "('w::len word, 'x) env"
  assumes s1: "s1 = s\<lparr>tabrec := (tabrec s)\<lparr>m_fix_header_size :=
                   m_fix_header_size (tabrec s) + ucast (HeaderSize env + SZ32 env)\<rparr>\<rparr>"
    and fx: "fx s1 key out = (ptr, key1, out1, s2)"
    and s3: "s3 = s2\<lparr>tabrec := (tabrec s2)\<lparr>m_fix_header_size :=
                   m_fix_header_size (tabrec s2) - ucast (HeaderSize env + SZ32 env)\<rparr>\<rparr>"
  shows "alloc_var_common fx env s alloc_size key out =
     (case ptr of
        Null \<Rightarrow> Inr (Null, key1, out1, s3)
      | Ptr tp toff \<Rightarrow>
          (case alloc_var_part env s3 alloc_size local_key_uninit of
             Inl e \<Rightarrow> Inl e
           | Inr (vptr, varref, s4) \<Rightarrow>
               if vptr \<noteq> Null then
                 (case var_part_ref_assign (c_page_pool s4)
                         (Ptr tp (get_var_part_ptr env (tabrec s4) toff)) varref of
                    Inl e \<Rightarrow> Inl e
                  | Inr pool5 \<Rightarrow> Inr (ptr, key1, out1, s4\<lparr>c_page_pool := pool5\<rparr>))
               else Inr (Null, key1, out1, free_fix_rec env s4 key1 (m_page_no key1))))"
  using fx unfolding alloc_var_common_def Let_def s3 s1 by (simp split: ptr.splits)

lemma alloc_var_common_rollback:
  fixes env :: "('w::len word, 'x) env"
  assumes s1: "s1 = s\<lparr>tabrec := (tabrec s)\<lparr>m_fix_header_size :=
                   m_fix_header_size (tabrec s) + ucast (HeaderSize env + SZ32 env)\<rparr>\<rparr>"
    and fx: "fx s1 key out = (Ptr tp toff, key1, out1, s2)"
    and s3: "s3 = s2\<lparr>tabrec := (tabrec s2)\<lparr>m_fix_header_size :=
                   m_fix_header_size (tabrec s2) - ucast (HeaderSize env + SZ32 env)\<rparr>\<rparr>"
    and v: "alloc_var_part env s3 alloc_size local_key_uninit = Inr (Null, k, s4)"
  shows "alloc_var_common fx env s alloc_size key out =
           Inr (Null, key1, out1, free_fix_rec env s4 key1 (m_page_no key1))"
  using v by (simp add: alloc_var_common_cases [where fx = fx and key = key and out = out, OF s1 fx s3])

lemma alloc_var_common_header:
  fixes env :: "('w::len word, 'x) env"
  assumes f1: "\<forall>t k fp. m_fix_header_size (tabrec (snd (snd (snd (fx t k fp))))) =
                   m_fix_header_size (tabrec t)"
    and f2: "\<forall>t k pg. m_fix_header_size (tabrec (free_fix_rec env t k pg)) =
                   m_fix_header_size (tabrec t)"
    and r: "alloc_var_common fx env s alloc_size key out = Inr (p, key', out', s')"
  shows "m_fix_header_size (tabrec s') = m_fix_header_size (tabrec s)"
proof -
  define s1 where "s1 = s\<lparr>tabrec := (tabrec s)\<lparr>m_fix_header_size :=
                   m_fix_header_size (tabrec s) + ucast (HeaderSize env + SZ32 env)\<rparr>\<rparr>"
  obtain ptr key1 out1 s2 where fx: "fx s1 key out = (ptr, key1, out1, s2)"
    by (cases "fx s1 key out") auto
  define s3 where "s3 = s2\<lparr>tabrec := (tabrec s2)\<lparr>m_fix_header_size :=
                   m_fix_header_size (tabrec s2) - ucast (HeaderSize env + SZ32 env)\<rparr>\<rparr>"
  from f1 [rule_format, of s1 key out] fx
  have "m_fix_header_size (tabrec s2) =
          m_fix_header_size (tabrec s) + ucast (HeaderSize env + SZ32 env)"
    by (simp add: s1_def)
  then have h3: "m_fix_header_size (tabrec s3) = m_fix_header_size (tabrec s)"
    by (simp add: s3_def)
  note c = alloc_var_common_cases [where fx = fx and key = key and out = out and alloc_size = alloc_size,
      OF s1_def fx s3_def]
  show ?thesis
  proof (cases ptr)
    case Null
    with r c have "s' = s3" by simp
    with h3 show ?thesis by simp
  next
    case (Ptr tp toff)
    with r c obtain vptr varref s4 where
      v: "alloc_var_part env s3 alloc_size local_key_uninit = Inr (vptr, varref, s4)"
      by (cases "alloc_var_part env s3 alloc_size local_key_uninit") auto
    from alloc_var_part_tabrec [OF v] h3
    have h4: "m_fix_header_size (tabrec s4) = m_fix_header_size (tabrec s)" by simp
    show ?thesis
    proof (cases "vptr = Null")
      case True
      with r c Ptr v have "s' = free_fix_rec env s4 key1 (m_page_no key1)" by auto
      with f2 h4 show ?thesis by simp
    next
      case False
      with r c Ptr v obtain pool5 where "s' = s4\<lparr>c_page_pool := pool5\<rparr>"
        by (auto split: sum.splits)
      with h4 show ?thesis by simp
    qed
  qed
qed

lemma demo_env_header_frame:
  "\<forall>t k fp. m_fix_header_size (tabrec (snd (snd (snd (alloc_fix_rec demo_env t k fp))))) =
                   m_fix_header_size (tabrec t)"
  "\<forall>t k fp. m_fix_header_size (tabrec (snd (snd (snd (alloc_fix_rowid demo_env t k fp))))) =
                   m_fix_header_size (tabrec t)"
  "\<forall>t k pg. m_fix_header_size (tabrec (free_fix_rec demo_env t k pg)) =
                   m_fix_header_size (tabrec t)"
  by (simp_all add: demo_env_def)

lemma demo_alloc_var_rec_facts:
  "returned (alloc_var_rec demo_env fresh_state 100 local_key_uninit 0) = Some (Ptr 1 0)"
  "returned (alloc_var_rowid demo_env shrink_state 50 \<lparr>m_page_no = 1, m_page_idx = 3\<rparr> 0)
     = Some Null"
  "returned (alloc_var_part demo_env
     (shrink_state\<lparr>collab := (collab shrink_state)\<lparr>fix_used := 2\<rparr>\<rparr>) 50 local_key_uninit)
     = Some Null"
  by code_simp+

lemma free_var_rec_steps:
  assumes "free_var_rec env s key pagePtr = Inr s'"
  shows "\<exists>ref s2.
           var_part_ref_copyout (c_page_pool s)
             (Ptr pagePtr (get_var_part_ptr env (tabrec s)
                (fix_get_ptr env (c_page_pool s pagePtr) (m_page_idx key) 0))) = Inr ref \<and>
           s2 = (free_fix_rec env s key pagePtr)
                  \<lparr>c_page_pool := (c_page_pool (free_fix_rec env s key pagePtr))
                     (m_page_no ref := free_record env
                        (c_page_pool (free_fix_rec env s key pagePtr) (m_page_no ref))
                        (m_page_idx ref))\<rparr> \<and>
           free_space (c_page_pool s2 (m_page_no ref)) \<le> DATA_WORDS env \<and>
           update_free_page_list s2 (m_page_no ref) = Inr s'"
  using assms unfolding free_var_rec_def Let_def
  by (auto split: sum.splits if_splits)

lemma demo_env_free_frame:
  "\<forall>t k pg. m_empty_pages (fragrec (free_fix_rec demo_env t k pg)) = m_empty_pages (fragrec t) \<and>
             noOfVarPages (fragrec (free_fix_rec demo_env t k pg)) = noOfVarPages (fragrec t) \<and>
             m_var_page_chunks (fragrec (free_fix_rec demo_env t k pg)) = m_var_page_chunks (fragrec t)"
  "\<forall>t k pg j. chunk_size (c_page_pool (free_fix_rec demo_env t k pg) j) = chunk_size (c_page_pool t j) \<and>
             next_chunk (c_page_pool (free_fix_rec demo_env t k pg) j) = next_chunk (c_page_pool t j)"
  "\<forall>pg idx. chunk_size (free_record demo_env pg idx) = chunk_size pg \<and>
             next_chunk (free_record demo_env pg idx) = next_chunk pg"
  by (simp_all add: demo_env_def)

lemma last_entry_state_free:
  "case free_var_rec demo_env last_entry_state \<lparr>m_page_no = 1, m_page_idx = 0\<rparr> 1 of
     Inl e \<Rightarrow> False
   | Inr s' \<Rightarrow>
       free_space (c_page_pool s' 7) = DATA_WORDS demo_env - 1 \<and>
       list_index (c_page_pool s' 7) = 3 \<and> free_var_page_array (fragrec s') 3 = 7"
  by code_simp

section \<open>The claims\<close>

subsection \<open>C5: the classifier returns the first class that fits\<close>



subsection \<open>C2: after update_free_page_list the list index agrees with the free space\<close>

text \<open>
  C2. After a call of \<^verbatim>\<open>update_free_page_list\<close> on a page, the page's \<open>list_index\<close> is the
  class \<^verbatim>\<open>calculate_free_list_impl\<close> gives for its free space, or it is \<^verbatim>\<open>MAX_FREE_LIST\<close> and
  the free space is below the minimum of the smallest class. The call changes the free
  space of no page and the \<open>list_index\<close> of no other page, so every other page that agreed
  before agrees after. The call returns (no \<^verbatim>\<open>ndbrequire\<close> fails) whenever the page's
  \<open>list_index\<close> is at most \<^verbatim>\<open>MAX_FREE_LIST\<close> and its free space is at most the bound 8159 of
  the last class.
\<close>

theorem update_free_page_list_list_index_consistent:
  "(list_index (c_page_pool s i) \<le> MAX_FREE_LIST \<and>
    free_space (c_page_pool s i) \<le> c_max_list_size ! unat (MAX_FREE_LIST - 1) \<longrightarrow>
      (\<exists>s'. update_free_page_list s i = Inr s')) \<and>
   (\<forall>s'. update_free_page_list s i = Inr s' \<longrightarrow>
      list_index_consistent (c_page_pool s' i) \<and>
      (\<forall>j. free_space (c_page_pool s' j) = free_space (c_page_pool s j)) \<and>
      (\<forall>j. j \<noteq> i \<longrightarrow> list_index (c_page_pool s' j) = list_index (c_page_pool s j)) \<and>
      (\<forall>j. j \<noteq> i \<longrightarrow> list_index_consistent (c_page_pool s j) \<longrightarrow>
           list_index_consistent (c_page_pool s' j)))"
proof (intro conjI impI allI)
  assume "list_index (c_page_pool s i) \<le> MAX_FREE_LIST \<and>
    free_space (c_page_pool s i) \<le> c_max_list_size ! unat (MAX_FREE_LIST - 1)"
  then show "\<exists>s'. update_free_page_list s i = Inr s'"
    by (simp add: update_free_page_list_returns)
next
  fix s' assume "update_free_page_list s i = Inr s'"
  then show "list_index_consistent (c_page_pool s' i)"
    by (rule update_free_page_list_consistent)
next
  fix s' j assume "update_free_page_list s i = Inr s'"
  then show "free_space (c_page_pool s' j) = free_space (c_page_pool s j)"
    by (rule update_free_page_list_free_space)
next
  fix s' j assume "update_free_page_list s i = Inr s'" "j \<noteq> i"
  then show "list_index (c_page_pool s' j) = list_index (c_page_pool s j)"
    by (rule update_free_page_list_other_index)
next
  fix s' j
  assume "update_free_page_list s i = Inr s'" "j \<noteq> i" "list_index_consistent (c_page_pool s j)"
  then show "list_index_consistent (c_page_pool s' j)"
    using update_free_page_list_free_space [of s i s' j]
      update_free_page_list_other_index [of s i s' j]
    by (simp add: list_index_consistent_def)
qed

text \<open>
  In \<open>stale_state\<close> the call on page 7 returns; the page leaves list 0 and becomes
  unlisted, which agrees with its 150 free words.
\<close>

theorem update_free_page_list_list_index_consistent_witness:
  "list_index (c_page_pool stale_state 7) \<le> MAX_FREE_LIST \<and>
   free_space (c_page_pool stale_state 7) \<le> c_max_list_size ! unat (MAX_FREE_LIST - 1) \<and>
   (\<exists>s'. update_free_page_list stale_state 7 = Inr s' \<and>
         list_index (c_page_pool s' 7) = MAX_FREE_LIST \<and>
         free_var_page_array (fragrec s') 0 = RNIL \<and>
         list_index_consistent (c_page_pool s' 7))"
proof -
  have h: "list_index (c_page_pool stale_state 7) \<le> MAX_FREE_LIST \<and>
      free_space (c_page_pool stale_state 7) \<le> c_max_list_size ! unat (MAX_FREE_LIST - 1)"
    by (simp add: stale_state_def blank_page_def MAX_FREE_LIST_def c_max_list_size_eq)
  from h update_free_page_list_list_index_consistent [of stale_state 7]
  obtain s' where s': "update_free_page_list stale_state 7 = Inr s'"
    and c: "list_index_consistent (c_page_pool s' 7)" by blast
  from s' have "list_index (c_page_pool s' 7) = MAX_FREE_LIST \<and>
      free_var_page_array (fragrec s') 0 = RNIL"
    by (auto simp: update_free_page_list_def stale_state_def blank_page_def array_get_def
        c_min_list_size_eq c_max_list_size_eq calculate_free_list_impl_unfold MAX_FREE_LIST_def
        dl_remove_def fvpa_set_def RNIL_def Let_def)
  with h s' c show ?thesis by blast
qed

subsection \<open>C1: the page that get_alloc_page returns has room, below the top class\<close>

text \<open>
  C1, as the code has it. For a requested size whose class is below the top class
  (\<open>alloc_size \<le> c_max_list_size[MAX_FREE_LIST - 2] = 4079\<close>), and with the head of every
  free list holding at least the minimum of its class, \<^verbatim>\<open>get_alloc_page\<close> returns, and what
  it returns is \<open>RNIL\<close> or a page with \<open>free_space \<ge> alloc_size\<close>: the head of a list strictly
  above the class of the size, or a page of the class's own list that the bounded scan
  has checked.
\<close>

theorem get_alloc_page_room_below_top_class:
  assumes "heads_have_class_minimum s"
    and "alloc_size \<le> c_max_list_size ! unat (MAX_FREE_LIST - 2)"
  shows "\<exists>r. get_alloc_page s alloc_size = Inr r \<and>
           (r = RNIL \<or> alloc_size \<le> free_space (c_page_pool s r))"
proof -
  from assms(2) have "alloc_size \<le> 4079"
    by (simp add: c_max_list_size_eq MAX_FREE_LIST_def)
  then have "\<exists>c. calculate_free_list_impl alloc_size = Inr c \<and> c < 3"
    by (simp add: calculate_free_list_impl_unfold)
  then obtain c where c: "calculate_free_list_impl alloc_size = Inr c" and c3: "c < 3"
    by blast
  then have lt: "c < MAX_FREE_LIST - 1" by (simp add: MAX_FREE_LIST_def)
  note eq = get_alloc_page_below_top [OF c lt, of s]
  show ?thesis
  proof (cases "get_alloc_page_loop (fragrec s) (c + 1)")
    case None
    with eq get_alloc_page_scan_room show ?thesis by (simp; blast)
  next
    case (Some p)
    then obtain k where k: "c + 1 \<le> k" "k < MAX_FREE_LIST" "p = free_var_page_array (fragrec s) k"
      "p \<noteq> RNIL" by (blast dest: get_alloc_page_loop_Some)
    from c3 have "c < c + 1" by (auto simp: u32_less_numeral_iff)
    with k(1) have "c < k" by simp
    from above_class_min [OF c this k(2)] assms(1) k
    have "alloc_size \<le> free_space (c_page_pool s p)"
      by (auto simp: heads_have_class_minimum_def)
    with eq Some show ?thesis by simp
  qed
qed

text \<open>In \<open>top_class_state\<close> a request of 3000 words gets page 7, with 4080 free words.\<close>

theorem get_alloc_page_room_below_top_class_witness:
  "heads_have_class_minimum top_class_state \<and>
   (3000::u32) \<le> c_max_list_size ! unat (MAX_FREE_LIST - 2) \<and>
   get_alloc_page top_class_state 3000 = Inr 7 \<and>
   (\<exists>r. get_alloc_page top_class_state 3000 = Inr r \<and>
        (r = RNIL \<or> 3000 \<le> free_space (c_page_pool top_class_state r)))"
proof -
  have h: "(3000::u32) \<le> c_max_list_size ! unat (MAX_FREE_LIST - 2)"
    by (simp add: c_max_list_size_eq MAX_FREE_LIST_def)
  have "get_alloc_page top_class_state 3000 = Inr 7"
    by (simp add: get_alloc_page_def calculate_free_list_impl_unfold
      MAX_FREE_LIST_def get_alloc_page_loop.simps [of _ 3] top_class_state_def RNIL_def
      blank_page_def)
  with get_alloc_page_room_below_top_class [OF top_class_state_heads h] h top_class_state_heads
  show ?thesis by simp
qed

text \<open>
  The claim as stated fails for a size of the top class: \<open>start_index\<close> stays at
  \<^verbatim>\<open>MAX_FREE_LIST - 1\<close>, and the first loop returns the head of the top list itself with no
  check. In \<open>top_class_state\<close>, whose list heads all hold their class minimum, a request of
  5000 words gets page 7, with 4080 free words.
\<close>

theorem get_alloc_page_top_class_counterexample:
  "heads_have_class_minimum top_class_state \<and>
   get_alloc_page top_class_state 5000 = Inr 7 \<and> 7 \<noteq> RNIL \<and>
   free_space (c_page_pool top_class_state 7) < 5000"
proof -
  have "get_alloc_page top_class_state 5000 = Inr 7 \<and> 7 \<noteq> RNIL \<and>
        free_space (c_page_pool top_class_state 7) < 5000"
    by (simp add: get_alloc_page_def calculate_free_list_impl_unfold
        MAX_FREE_LIST_def get_alloc_page_loop.simps [of _ 3] top_class_state_def RNIL_def
        blank_page_def)
  with top_class_state_heads show ?thesis by simp
qed

subsection \<open>C7: get_empty_var_page\<close>

text \<open>
  C7. When the list of empty pages is not empty, \<^verbatim>\<open>get_empty_var_page\<close> takes its first page off
  and returns it. Otherwise it asks the page allocator for 10 pages and adds the number
  \<open>cnt\<close> of pages it got to \<open>noOfVarPages\<close>. With \<open>cnt = 0\<close> it returns \<open>RNIL\<close> and changes
  nothing else. With \<open>cnt > 0\<close> it returns the first page \<open>ret\<close> of the run, records the
  chunk on it (\<open>chunk_size = cnt\<close>, \<open>next_chunk\<close> the old head of the chunk list, which
  becomes \<open>ret\<close>), gives every page of the run its id and the state \<^verbatim>\<open>ZEMPTY_MM\<close>, and makes
  the rest of the run the list of empty pages: its head is \<open>ret + 1\<close>, each page points to
  the next and the last to \<open>RNIL\<close> (with \<open>cnt = 1\<close> the list stays empty). Provided the page
  allocator never hands out \<open>RNIL\<close> as a page id, the function returns \<open>RNIL\<close> exactly when
  the list of empty pages is empty and the allocator gives zero pages. That at most 10
  pages come back is the page allocator's contract: the function asks for 10.
\<close>

theorem get_empty_var_page_supply:
  "(m_empty_pages (fragrec s) \<noteq> RNIL \<longrightarrow>
      get_empty_var_page env s =
        (m_empty_pages (fragrec s),
         s\<lparr>fragrec := (fragrec s)\<lparr>m_empty_pages :=
              nextList (c_page_pool s (m_empty_pages (fragrec s)))\<rparr>\<rparr>)) \<and>
   (m_empty_pages (fragrec s) = RNIL \<and> allocConsPages env (collab s) 10 RNIL = (0, ret, x) \<longrightarrow>
      get_empty_var_page env s = (RNIL, s\<lparr>collab := x\<rparr>)) \<and>
   (m_empty_pages (fragrec s) = RNIL \<and> allocConsPages env (collab s) 10 RNIL = (cnt, ret, x) \<and>
    cnt \<noteq> 0 \<longrightarrow>
      (\<exists>s'. get_empty_var_page env s = (ret, s') \<and>
           noOfVarPages (fragrec s') = noOfVarPages (fragrec s) + cnt \<and>
           collab s' = x \<and>
           free_var_page_array (fragrec s') = free_var_page_array (fragrec s) \<and>
           chunk_size (c_page_pool s' ret) = cnt \<and>
           next_chunk (c_page_pool s' ret) = m_var_page_chunks (fragrec s) \<and>
           m_var_page_chunks (fragrec s') = ret \<and>
           m_empty_pages (fragrec s') = (if 1 < cnt then ret + 1 else RNIL) \<and>
           (\<forall>k. 0 < k \<and> k < unat cnt \<longrightarrow>
                nextList (c_page_pool s' (ret + of_nat k)) =
                  (if Suc k < unat cnt then ret + of_nat (Suc k) else RNIL)) \<and>
           (\<forall>k. k < unat cnt \<longrightarrow>
                page_state (c_page_pool s' (ret + of_nat k)) = ZEMPTY_MM env \<and>
                physical_page_id (c_page_pool s' (ret + of_nat k)) = ret + of_nat k \<and>
                frag_page_id (c_page_pool s' (ret + of_nat k)) = RNIL \<and>
                prevList (c_page_pool s' (ret + of_nat k)) = RNIL))) \<and>
   ((fst (allocConsPages env (collab s) 10 RNIL) \<noteq> 0 \<longrightarrow>
       fst (snd (allocConsPages env (collab s) 10 RNIL)) \<noteq> RNIL) \<longrightarrow>
      (fst (get_empty_var_page env s) = RNIL \<longleftrightarrow>
         m_empty_pages (fragrec s) = RNIL \<and> fst (allocConsPages env (collab s) 10 RNIL) = 0))"
proof (intro conjI impI)
  assume "m_empty_pages (fragrec s) \<noteq> RNIL"
  then show "get_empty_var_page env s =
        (m_empty_pages (fragrec s),
         s\<lparr>fragrec := (fragrec s)\<lparr>m_empty_pages :=
              nextList (c_page_pool s (m_empty_pages (fragrec s)))\<rparr>\<rparr>)"
    by (rule get_empty_var_page_pop)
next
  assume "m_empty_pages (fragrec s) = RNIL \<and> allocConsPages env (collab s) 10 RNIL = (0, ret, x)"
  then show "get_empty_var_page env s = (RNIL, s\<lparr>collab := x\<rparr>)"
    by (simp add: get_empty_var_page_none)
next
  assume "m_empty_pages (fragrec s) = RNIL \<and>
    allocConsPages env (collab s) 10 RNIL = (cnt, ret, x) \<and> cnt \<noteq> 0"
  then have "m_empty_pages (fragrec s) = RNIL"
    "allocConsPages env (collab s) 10 RNIL = (cnt, ret, x)" "cnt \<noteq> 0" by simp_all
  then show "\<exists>s'. get_empty_var_page env s = (ret, s') \<and>
           noOfVarPages (fragrec s') = noOfVarPages (fragrec s) + cnt \<and>
           collab s' = x \<and>
           free_var_page_array (fragrec s') = free_var_page_array (fragrec s) \<and>
           chunk_size (c_page_pool s' ret) = cnt \<and>
           next_chunk (c_page_pool s' ret) = m_var_page_chunks (fragrec s) \<and>
           m_var_page_chunks (fragrec s') = ret \<and>
           m_empty_pages (fragrec s') = (if 1 < cnt then ret + 1 else RNIL) \<and>
           (\<forall>k. 0 < k \<and> k < unat cnt \<longrightarrow>
                nextList (c_page_pool s' (ret + of_nat k)) =
                  (if Suc k < unat cnt then ret + of_nat (Suc k) else RNIL)) \<and>
           (\<forall>k. k < unat cnt \<longrightarrow>
                page_state (c_page_pool s' (ret + of_nat k)) = ZEMPTY_MM env \<and>
                physical_page_id (c_page_pool s' (ret + of_nat k)) = ret + of_nat k \<and>
                frag_page_id (c_page_pool s' (ret + of_nat k)) = RNIL \<and>
                prevList (c_page_pool s' (ret + of_nat k)) = RNIL)"
    by (rule get_empty_var_page_run)
next
  assume h: "fst (allocConsPages env (collab s) 10 RNIL) \<noteq> 0 \<longrightarrow>
       fst (snd (allocConsPages env (collab s) 10 RNIL)) \<noteq> RNIL"
  obtain cnt' ret' x' where a: "allocConsPages env (collab s) 10 RNIL = (cnt', ret', x')"
    by (cases "allocConsPages env (collab s) 10 RNIL") auto
  show "fst (get_empty_var_page env s) = RNIL \<longleftrightarrow>
         m_empty_pages (fragrec s) = RNIL \<and> fst (allocConsPages env (collab s) 10 RNIL) = 0"
  proof (cases "m_empty_pages (fragrec s) = RNIL")
    case False
    then show ?thesis by (simp add: get_empty_var_page_pop)
  next
    case e: True
    show ?thesis
    proof (cases "cnt' = 0")
      case True
      with e a show ?thesis by (simp add: get_empty_var_page_none)
    next
      case False
      from get_empty_var_page_run [OF e a False] obtain s' where
        "get_empty_var_page env s = (ret', s')" by blast
      with e a False h show ?thesis by simp
    qed
  qed
qed

text \<open>
  In \<open>fresh_state\<close> the allocator gives the pages 16, 17 and 18: page 16 is returned and
  carries the chunk of size 3, and the list of empty pages is 17, 18.
\<close>

theorem get_empty_var_page_supply_witness:
  "m_empty_pages (fragrec fresh_state) = RNIL \<and>
   allocConsPages demo_env (collab fresh_state) 10 RNIL =
     (3, 16, \<lparr>pages_next = 19, pages_left = 0, fix_used = 0\<rparr>) \<and>
   (\<exists>s'. get_empty_var_page demo_env fresh_state = (16, s') \<and>
         noOfVarPages (fragrec s') = 3 \<and>
         chunk_size (c_page_pool s' 16) = 3 \<and>
         m_var_page_chunks (fragrec s') = 16 \<and>
         m_empty_pages (fragrec s') = 17 \<and>
         nextList (c_page_pool s' 17) = 18 \<and>
         nextList (c_page_pool s' 18) = RNIL)"
proof -
  have e: "m_empty_pages (fragrec fresh_state) = RNIL" by (simp add: fresh_state_def)
  have a: "allocConsPages demo_env (collab fresh_state) 10 RNIL =
     (3, 16, \<lparr>pages_next = 19, pages_left = 0, fix_used = 0\<rparr>)"
    by (simp add: fresh_state_def demo_env_def Let_def)
  from e a get_empty_var_page_supply [of fresh_state demo_env 16
      "\<lparr>pages_next = 19, pages_left = 0, fix_used = 0\<rparr>" 3]
  obtain s' where s': "get_empty_var_page demo_env fresh_state = (16, s')"
    "noOfVarPages (fragrec s') = noOfVarPages (fragrec fresh_state) + 3"
    "chunk_size (c_page_pool s' 16) = 3" "m_var_page_chunks (fragrec s') = 16"
    "m_empty_pages (fragrec s') = (if 1 < (3::u32) then 16 + 1 else RNIL)"
    and nx: "\<forall>k. 0 < k \<and> k < unat (3::u32) \<longrightarrow>
                nextList (c_page_pool s' (16 + of_nat k)) =
                  (if Suc k < unat (3::u32) then 16 + of_nat (Suc k) else RNIL)"
    by auto
  from nx [rule_format, of 1] nx [rule_format, of 2]
  have "nextList (c_page_pool s' 17) = 18" "nextList (c_page_pool s' 18) = RNIL"
    by simp_all
  with e a s' show ?thesis by (simp add: fresh_state_def)
qed

subsection \<open>C6: alloc_var_part\<close>



subsection \<open>C3: realloc_var_part with a size that does not grow\<close>

text \<open>
  C3, as the code has it. \<^verbatim>\<open>realloc_var_part\<close> takes the in-page path exactly when the page's
  free space is at least \<open>newsz - oldsz\<close>, a \<^verbatim>\<open>Uint32\<close> difference. On that path (in particular
  for \<open>newsz = oldsz\<close>, where the difference is 0) every call that returns gives a non-null
  pointer into the same page, nothing is allocated (the page allocator's state, the list
  of empty pages and the page count are as before) and the page is re-filed; when there
  is space behind the entry the call returns as soon as the grown page has a
  \<open>list_index\<close> of at most \<^verbatim>\<open>MAX_FREE_LIST\<close> and at most 8159 free words. For \<open>newsz < oldsz\<close>
  the difference wraps to \<open>2^32 - (oldsz - newsz)\<close>; when the free space is below it, the
  call takes the relocation path, which asks \<^verbatim>\<open>alloc_var_part\<close> for \<open>newsz\<close> words, and returns
  null when that returns null.
\<close>

theorem realloc_var_part_in_place_or_moved:
  assumes "var_part_ref_copyout (c_page_pool s) refptr = Inr oldref"
  shows "(newsz - oldsz \<le> free_space (c_page_pool s pagePtr) \<longrightarrow>
           (\<forall>p s'. realloc_var_part env s pagePtr refptr oldsz newsz = Inr (p, s') \<longrightarrow>
              (\<exists>off. p = Ptr pagePtr off) \<and> collab s' = collab s \<and>
              m_empty_pages (fragrec s') = m_empty_pages (fragrec s) \<and>
              noOfVarPages (fragrec s') = noOfVarPages (fragrec s) \<and>
              list_index_consistent (c_page_pool s' pagePtr))) \<and>
         (newsz - oldsz \<le> free_space (c_page_pool s pagePtr) \<and>
          is_space_behind_entry env (c_page_pool s pagePtr) (m_page_idx oldref) (newsz - oldsz) \<and>
          list_index (grow_entry env (c_page_pool s pagePtr) (m_page_idx oldref) (newsz - oldsz))
            \<le> MAX_FREE_LIST \<and>
          free_space (grow_entry env (c_page_pool s pagePtr) (m_page_idx oldref) (newsz - oldsz))
            \<le> c_max_list_size ! unat (MAX_FREE_LIST - 1) \<longrightarrow>
           (\<exists>s'. realloc_var_part env s pagePtr refptr oldsz newsz =
              Inr (Ptr pagePtr (get_ptr env (c_page_pool s pagePtr) (m_page_idx oldref)), s'))) \<and>
         (newsz < oldsz \<longrightarrow> unat (newsz - oldsz) = 2 ^ 32 - (unat oldsz - unat newsz)) \<and>
         (free_space (c_page_pool s pagePtr) < newsz - oldsz \<longrightarrow>
            realloc_var_part env s pagePtr refptr oldsz newsz =
              realloc_move env s pagePtr refptr oldref oldsz newsz \<and>
            (\<forall>k s1. alloc_var_part env s newsz local_key_uninit = Inr (Null, k, s1) \<longrightarrow>
               realloc_var_part env s pagePtr refptr oldsz newsz = Inr (Null, s1)))"
proof (intro conjI impI allI)
  fix p s'
  assume "newsz - oldsz \<le> free_space (c_page_pool s pagePtr)"
    "realloc_var_part env s pagePtr refptr oldsz newsz = Inr (p, s')"
  from realloc_in_place [OF assms this]
  show "\<exists>off. p = Ptr pagePtr off" "collab s' = collab s"
    "m_empty_pages (fragrec s') = m_empty_pages (fragrec s)"
    "noOfVarPages (fragrec s') = noOfVarPages (fragrec s)"
    "list_index_consistent (c_page_pool s' pagePtr)" by simp_all
next
  assume "newsz - oldsz \<le> free_space (c_page_pool s pagePtr) \<and>
          is_space_behind_entry env (c_page_pool s pagePtr) (m_page_idx oldref) (newsz - oldsz) \<and>
          list_index (grow_entry env (c_page_pool s pagePtr) (m_page_idx oldref) (newsz - oldsz))
            \<le> MAX_FREE_LIST \<and>
          free_space (grow_entry env (c_page_pool s pagePtr) (m_page_idx oldref) (newsz - oldsz))
            \<le> c_max_list_size ! unat (MAX_FREE_LIST - 1)"
  then show "\<exists>s'. realloc_var_part env s pagePtr refptr oldsz newsz =
              Inr (Ptr pagePtr (get_ptr env (c_page_pool s pagePtr) (m_page_idx oldref)), s')"
    using realloc_simple_returns [OF assms] by blast
next
  assume "newsz < oldsz"
  then show "unat (newsz - oldsz) = 2 ^ 32 - (unat oldsz - unat newsz)" by (rule u32_sub_wraps)
next
  assume "free_space (c_page_pool s pagePtr) < newsz - oldsz"
  then show "realloc_var_part env s pagePtr refptr oldsz newsz =
              realloc_move env s pagePtr refptr oldref oldsz newsz"
    using assms by (simp add: realloc_relocates)
next
  fix k s1
  assume "free_space (c_page_pool s pagePtr) < newsz - oldsz"
    "alloc_var_part env s newsz local_key_uninit = Inr (Null, k, s1)"
  then show "realloc_var_part env s pagePtr refptr oldsz newsz = Inr (Null, s1)"
    using assms by (simp add: realloc_relocates realloc_move_null)
qed

text \<open>
  In \<open>shrink_state\<close> a call with \<open>newsz = oldsz = 10\<close> stays on page 7; a call with
  \<open>newsz = 5\<close> relocates, and returns null since no page can be had.
\<close>

theorem realloc_var_part_in_place_or_moved_witness:
  "var_part_ref_copyout (c_page_pool shrink_state) (Ptr 1 2) =
     Inr \<lparr>m_page_no = 7, m_page_idx = 0\<rparr> \<and>
   (10::u32) - 10 \<le> free_space (c_page_pool shrink_state 7) \<and>
   returned (realloc_var_part demo_env shrink_state 7 (Ptr 1 2) 10 10) = Some (Ptr 7 1) \<and>
   free_space (c_page_pool shrink_state 7) < 5 - 10 \<and>
   returned (alloc_var_part demo_env shrink_state 5 local_key_uninit) = Some Null \<and>
   returned (realloc_var_part demo_env shrink_state 7 (Ptr 1 2) 10 5) = Some Null"
proof -
  note c = shrink_state_facts(1)
  have le: "(10::u32) - 10 \<le> free_space (c_page_pool shrink_state 7)" by simp
  have lt: "free_space (c_page_pool shrink_state 7) < 5 - 10"
    by (simp add: shrink_state_facts(3))
  from realloc_var_part_in_place_or_moved
      [OF c, where newsz = 10 and oldsz = 10 and pagePtr = 7 and env = demo_env] shrink_state_facts
  have "\<exists>s'. realloc_var_part demo_env shrink_state 7 (Ptr 1 2) 10 10 = Inr (Ptr 7 1, s')"
    by simp
  then have a: "returned (realloc_var_part demo_env shrink_state 7 (Ptr 1 2) 10 10) = Some (Ptr 7 1)"
    by (auto simp: returned_def)
  from returned_Some [OF shrink_state_facts(8)] obtain b where
    "alloc_var_part demo_env shrink_state 5 local_key_uninit = Inr (Null, b)" by blast
  then obtain k s1 where
    "alloc_var_part demo_env shrink_state 5 local_key_uninit = Inr (Null, k, s1)"
    by (cases b) auto
  with realloc_var_part_in_place_or_moved
      [OF c, where newsz = 5 and oldsz = 10 and pagePtr = 7 and env = demo_env] lt
  have "realloc_var_part demo_env shrink_state 7 (Ptr 1 2) 10 5 = Inr (Null, s1)" by blast
  then have b: "returned (realloc_var_part demo_env shrink_state 7 (Ptr 1 2) 10 5) = Some Null"
    by (simp add: returned_def)
  from c le a lt shrink_state_facts(8) b show ?thesis by simp
qed

text \<open>
  The claim as stated fails: in \<open>shrink_state\<close> the entry of 10 words on page 7 is shrunk to
  5 words, \<open>5 - 10\<close> wraps to \<open>2^32 - 5\<close>, above the 100 free words of the page, and the call
  returns null.
\<close>

theorem realloc_var_part_shrink_counterexample:
  "(5::u32) \<le> 10 \<and>
   get_entry_len demo_env (c_page_pool shrink_state 7) 0 = 10 \<and>
   returned (realloc_var_part demo_env shrink_state 7 (Ptr 1 2) 10 5) = Some Null"
  by code_simp

subsection \<open>C8: the relocation goes to another page\<close>



subsection \<open>C9: the fixed header size is restored\<close>

text \<open>
  C9. \<open>avr\<close> is \<^verbatim>\<open>alloc_var_rec\<close> with \<open>fx\<close> its fixed-part allocator \<^verbatim>\<open>alloc_fix_rec\<close>, or
  \<^verbatim>\<open>alloc_var_rowid\<close> with \<^verbatim>\<open>alloc_fix_rowid\<close>. The fixed-part allocator and \<^verbatim>\<open>free_fix_rec\<close> are
  outside the sources; they are assumed to leave \<open>m_fix_header_size\<close> as they find it. Then
  every call that returns, with a pointer or with null, leaves \<open>m_fix_header_size\<close> at the
  value it had on entry; the fixed-part allocator has run on the state in which the field
  is larger by \<^verbatim>\<open>Tuple_header::HeaderSize + Var_part_ref::SZ32\<close>, and the key and the fragment
  page id that the call gives back are the ones the allocator gave. The equation holds
  for every width of the field, since the addition and the subtraction wrap alike.
\<close>

theorem alloc_var_rec_fix_header_size_restored:
  fixes env :: "('w::len word, 'x) env"
  assumes "(avr = alloc_var_rec env \<and> fx = alloc_fix_rec env) \<or>
           (avr = alloc_var_rowid env \<and> fx = alloc_fix_rowid env)"
    and "\<forall>t k fp. m_fix_header_size (tabrec (snd (snd (snd (fx t k fp))))) =
                   m_fix_header_size (tabrec t)"
    and "\<forall>t k pg. m_fix_header_size (tabrec (free_fix_rec env t k pg)) =
                   m_fix_header_size (tabrec t)"
    and "avr s alloc_size key out = Inr (p, key', out', s')"
  shows "m_fix_header_size (tabrec s') = m_fix_header_size (tabrec s) \<and>
         (\<exists>ptr s2.
            fx (s\<lparr>tabrec := (tabrec s)\<lparr>m_fix_header_size :=
                   m_fix_header_size (tabrec s) + ucast (HeaderSize env + SZ32 env)\<rparr>\<rparr>) key out
              = (ptr, key', out', s2) \<and>
            m_fix_header_size (tabrec s2) =
              m_fix_header_size (tabrec s) + ucast (HeaderSize env + SZ32 env))"
proof -
  from assms(1,4) have r: "alloc_var_common fx env s alloc_size key out = Inr (p, key', out', s')"
    by (auto simp: alloc_var_rec_def alloc_var_rowid_def)
  from alloc_var_common_header [OF assms(2,3) r]
  have 1: "m_fix_header_size (tabrec s') = m_fix_header_size (tabrec s)" .
  define s1 where "s1 = s\<lparr>tabrec := (tabrec s)\<lparr>m_fix_header_size :=
                   m_fix_header_size (tabrec s) + ucast (HeaderSize env + SZ32 env)\<rparr>\<rparr>"
  obtain ptr key1 out1 s2 where fx: "fx s1 key out = (ptr, key1, out1, s2)"
    by (cases "fx s1 key out") auto
  from assms(2) [rule_format, of s1 key out] fx
  have h: "m_fix_header_size (tabrec s2) =
          m_fix_header_size (tabrec s) + ucast (HeaderSize env + SZ32 env)"
    by (simp add: s1_def)
  from r alloc_var_common_cases [where fx = fx and key = key and out = out
      and alloc_size = alloc_size, OF s1_def fx refl]
  have "key1 = key' \<and> out1 = out'"
    by (auto split: ptr.splits sum.splits prod.splits if_splits)
  with fx h 1 show ?thesis unfolding s1_def by blast
qed

text \<open>
  \<^verbatim>\<open>alloc_var_rec\<close> succeeds in \<open>fresh_state\<close>, \<^verbatim>\<open>alloc_var_rowid\<close> returns null in
  \<open>shrink_state\<close>; the field is 6 before and after both.
\<close>

theorem alloc_var_rec_fix_header_size_restored_witness:
  "(\<exists>key' out' s'.
      alloc_var_rec demo_env fresh_state 100 local_key_uninit 0 = Inr (Ptr 1 0, key', out', s') \<and>
      m_fix_header_size (tabrec s') = m_fix_header_size (tabrec fresh_state)) \<and>
   (\<exists>key' out' s'.
      alloc_var_rowid demo_env shrink_state 50 \<lparr>m_page_no = 1, m_page_idx = 3\<rparr> 0
        = Inr (Null, key', out', s') \<and>
      m_fix_header_size (tabrec s') = m_fix_header_size (tabrec shrink_state))"
proof -
  from returned_Some [OF demo_alloc_var_rec_facts(1)] obtain b where
    "alloc_var_rec demo_env fresh_state 100 local_key_uninit 0 = Inr (Ptr 1 0, b)" by blast
  then obtain key' out' s' where
    a: "alloc_var_rec demo_env fresh_state 100 local_key_uninit 0 = Inr (Ptr 1 0, key', out', s')"
    by (cases b) auto
  have w1: "(alloc_var_rec demo_env = alloc_var_rec demo_env \<and>
             alloc_fix_rec demo_env = alloc_fix_rec demo_env) \<or>
            (alloc_var_rec demo_env = alloc_var_rowid demo_env \<and>
             alloc_fix_rec demo_env = alloc_fix_rowid demo_env)" by simp
  from alloc_var_rec_fix_header_size_restored [OF w1 demo_env_header_frame(1,3) a]
  have 1: "m_fix_header_size (tabrec s') = m_fix_header_size (tabrec fresh_state)" by simp
  from returned_Some [OF demo_alloc_var_rec_facts(2)] obtain b2 where
    "alloc_var_rowid demo_env shrink_state 50 \<lparr>m_page_no = 1, m_page_idx = 3\<rparr> 0 = Inr (Null, b2)"
    by blast
  then obtain key2 out2 s2 where
    a2: "alloc_var_rowid demo_env shrink_state 50 \<lparr>m_page_no = 1, m_page_idx = 3\<rparr> 0
           = Inr (Null, key2, out2, s2)"
    by (cases b2) auto
  have w2: "(alloc_var_rowid demo_env = alloc_var_rec demo_env \<and>
             alloc_fix_rowid demo_env = alloc_fix_rec demo_env) \<or>
            (alloc_var_rowid demo_env = alloc_var_rowid demo_env \<and>
             alloc_fix_rowid demo_env = alloc_fix_rowid demo_env)" by simp
  from alloc_var_rec_fix_header_size_restored [OF w2 demo_env_header_frame(2,3) a2]
  have 2: "m_fix_header_size (tabrec s2) = m_fix_header_size (tabrec shrink_state)" by simp
  from a 1 a2 2 show ?thesis by blast
qed

subsection \<open>C4: the fixed part is freed when the variable part cannot be allocated\<close>

text \<open>
  C4. \<open>avr\<close> and \<open>fx\<close> are as in C9. When the fixed-part allocator gives a non-null pointer
  and \<^verbatim>\<open>alloc_var_part\<close> then returns null, the call returns null, with the key and the
  fragment page id that the fixed-part allocator gave, and its last step is
  \<^verbatim>\<open>free_fix_rec\<close> on that key and on the page \<open>key->m_page_no\<close>. The failed \<^verbatim>\<open>alloc_var_part\<close>
  has changed nothing but, at most, the private state of the page allocator (given that
  the page allocator never hands out \<open>RNIL\<close> as a page id). The fixed-part allocator is
  outside the sources: if its \<^verbatim>\<open>free_fix_rec\<close> undoes its allocation, and a page request that
  gives no page leaves the page allocator as it was, then the state after the call is
  the state before it, so nothing is leaked and only the key and the fragment page id
  that are passed back have changed.
\<close>

theorem alloc_var_rec_rollback:
  fixes env :: "('w::len word, 'x) env"
  assumes "(avr = alloc_var_rec env \<and> fx = alloc_fix_rec env) \<or>
           (avr = alloc_var_rowid env \<and> fx = alloc_fix_rowid env)"
    and "fx (s\<lparr>tabrec := (tabrec s)\<lparr>m_fix_header_size :=
                 m_fix_header_size (tabrec s) + ucast (HeaderSize env + SZ32 env)\<rparr>\<rparr>) key out
           = (Ptr tp toff, key1, out1, s2)"
    and "s3 = s2\<lparr>tabrec := (tabrec s2)\<lparr>m_fix_header_size :=
                 m_fix_header_size (tabrec s2) - ucast (HeaderSize env + SZ32 env)\<rparr>\<rparr>"
    and "alloc_var_part env s3 alloc_size local_key_uninit = Inr (Null, k, s4)"
  shows "avr s alloc_size key out =
           Inr (Null, key1, out1, free_fix_rec env s4 key1 (m_page_no key1)) \<and>
         ((fst (allocConsPages env (collab s3) 10 RNIL) \<noteq> 0 \<longrightarrow>
             fst (snd (allocConsPages env (collab s3) 10 RNIL)) \<noteq> RNIL) \<longrightarrow>
            s4 = s3\<lparr>collab := snd (snd (allocConsPages env (collab s3) 10 RNIL))\<rparr>) \<and>
         ((fst (allocConsPages env (collab s3) 10 RNIL) \<noteq> 0 \<longrightarrow>
             fst (snd (allocConsPages env (collab s3) 10 RNIL)) \<noteq> RNIL) \<and>
          snd (snd (allocConsPages env (collab s3) 10 RNIL)) = collab s3 \<and>
          free_fix_rec env s3 key1 (m_page_no key1) = s \<longrightarrow>
            avr s alloc_size key out = Inr (Null, key1, out1, s))"
proof -
  have c: "alloc_var_common fx env s alloc_size key out =
             Inr (Null, key1, out1, free_fix_rec env s4 key1 (m_page_no key1))"
    using alloc_var_common_rollback [where fx = fx and key = key and out = out,
        OF refl assms(2) assms(3) assms(4)] .
  with assms(1) have 1: "avr s alloc_size key out =
           Inr (Null, key1, out1, free_fix_rec env s4 key1 (m_page_no key1))"
    by (auto simp: alloc_var_rec_def alloc_var_rowid_def)
  have 2: "s4 = s3\<lparr>collab := snd (snd (allocConsPages env (collab s3) 10 RNIL))\<rparr>"
    if "fst (allocConsPages env (collab s3) 10 RNIL) \<noteq> 0 \<longrightarrow>
             fst (snd (allocConsPages env (collab s3) 10 RNIL)) \<noteq> RNIL"
    using alloc_var_part_null [OF assms(4) that] by simp
  have 3: "avr s alloc_size key out = Inr (Null, key1, out1, s)"
    if "(fst (allocConsPages env (collab s3) 10 RNIL) \<noteq> 0 \<longrightarrow>
             fst (snd (allocConsPages env (collab s3) 10 RNIL)) \<noteq> RNIL) \<and>
          snd (snd (allocConsPages env (collab s3) 10 RNIL)) = collab s3 \<and>
          free_fix_rec env s3 key1 (m_page_no key1) = s"
  proof -
    from that 2 have "s4 = s3\<lparr>collab := collab s3\<rparr>" by simp
    then have "s4 = s3" by simp
    with 1 that show ?thesis by simp
  qed
  from 1 2 3 show ?thesis by blast
qed

text \<open>
  In \<open>shrink_state\<close> the fixed part (1, 1) is allocated, no page can be had for the variable
  part, and the call returns null and leaves the state as it was.
\<close>

theorem alloc_var_rec_rollback_witness:
  "alloc_fix_rec demo_env (shrink_state\<lparr>tabrec := \<lparr>m_fix_header_size = 10\<rparr>\<rparr>) local_key_uninit 0
     = (Ptr 1 8, \<lparr>m_page_no = 1, m_page_idx = 1\<rparr>, 1,
        shrink_state\<lparr>tabrec := \<lparr>m_fix_header_size = 10\<rparr>,
                      collab := (collab shrink_state)\<lparr>fix_used := 2\<rparr>\<rparr>) \<and>
   returned (alloc_var_part demo_env
     (shrink_state\<lparr>collab := (collab shrink_state)\<lparr>fix_used := 2\<rparr>\<rparr>) 50 local_key_uninit)
     = Some Null \<and>
   alloc_var_rec demo_env shrink_state 50 local_key_uninit 0
     = Inr (Null, \<lparr>m_page_no = 1, m_page_idx = 1\<rparr>, 1, shrink_state)"
proof -
  let ?s2 = "shrink_state\<lparr>tabrec := \<lparr>m_fix_header_size = 10\<rparr>,
                      collab := (collab shrink_state)\<lparr>fix_used := 2\<rparr>\<rparr>"
  let ?s3 = "shrink_state\<lparr>collab := (collab shrink_state)\<lparr>fix_used := 2\<rparr>\<rparr>"
  let ?k = "\<lparr>m_page_no = 1, m_page_idx = 1\<rparr> :: local_key"
  have w: "(alloc_var_rec demo_env = alloc_var_rec demo_env \<and>
             alloc_fix_rec demo_env = alloc_fix_rec demo_env) \<or>
            (alloc_var_rec demo_env = alloc_var_rowid demo_env \<and>
             alloc_fix_rec demo_env = alloc_fix_rowid demo_env)" by simp
  have fx0: "alloc_fix_rec demo_env (shrink_state\<lparr>tabrec := \<lparr>m_fix_header_size = 10\<rparr>\<rparr>)
               local_key_uninit 0 = (Ptr 1 8, ?k, 1, ?s2)"
    by (simp add: demo_env_def shrink_state_def)
  have raised: "shrink_state\<lparr>tabrec := (tabrec shrink_state)\<lparr>m_fix_header_size :=
                 m_fix_header_size (tabrec shrink_state) +
                 ucast (HeaderSize demo_env + SZ32 demo_env)\<rparr>\<rparr>
               = shrink_state\<lparr>tabrec := \<lparr>m_fix_header_size = 10\<rparr>\<rparr>"
    by (simp add: demo_env_def shrink_state_def)
  have fx: "alloc_fix_rec demo_env
              (shrink_state\<lparr>tabrec := (tabrec shrink_state)\<lparr>m_fix_header_size :=
                 m_fix_header_size (tabrec shrink_state) +
                 ucast (HeaderSize demo_env + SZ32 demo_env)\<rparr>\<rparr>) local_key_uninit 0
            = (Ptr 1 8, ?k, 1, ?s2)"
    unfolding raised by (rule fx0)
  have s3: "?s3 = ?s2\<lparr>tabrec := (tabrec ?s2)\<lparr>m_fix_header_size :=
                 m_fix_header_size (tabrec ?s2) - ucast (HeaderSize demo_env + SZ32 demo_env)\<rparr>\<rparr>"
    by (simp add: demo_env_def shrink_state_def)
  from returned_Some [OF demo_alloc_var_rec_facts(3)] obtain b where
    "alloc_var_part demo_env ?s3 50 local_key_uninit = Inr (Null, b)" by blast
  then obtain k s4 where v: "alloc_var_part demo_env ?s3 50 local_key_uninit = Inr (Null, k, s4)"
    by (cases b) auto
  have ok: "(fst (allocConsPages demo_env (collab ?s3) 10 RNIL) \<noteq> 0 \<longrightarrow>
             fst (snd (allocConsPages demo_env (collab ?s3) 10 RNIL)) \<noteq> RNIL) \<and>
          snd (snd (allocConsPages demo_env (collab ?s3) 10 RNIL)) = collab ?s3 \<and>
          free_fix_rec demo_env ?s3 ?k (m_page_no ?k) = shrink_state"
    by (simp add: demo_env_def shrink_state_def)
  from alloc_var_rec_rollback [OF w fx s3 v] ok
  have "alloc_var_rec demo_env shrink_state 50 local_key_uninit 0 = Inr (Null, ?k, 1, shrink_state)"
    by blast
  with fx0 demo_alloc_var_rec_facts(3) show ?thesis by blast
qed

subsection \<open>C10: free_var_rec keeps the page in the fragment\<close>

text \<open>
  C10. \<^verbatim>\<open>free_fix_rec\<close> and the page layout engine's \<^verbatim>\<open>free_record\<close> are outside the sources;
  \<^verbatim>\<open>free_fix_rec\<close> is assumed to leave the list of empty pages, the page count, the head of
  the chunk list and the chunk fields of the pages alone, \<^verbatim>\<open>free_record\<close> the chunk fields
  of its page. Then every call of \<^verbatim>\<open>free_var_rec\<close> that returns leaves \<open>m_empty_pages\<close>,
  \<open>noOfVarPages\<close>, \<open>m_var_page_chunks\<close> and the chunk fields of every page as they were,
  whatever free space the page ends with: the state returned is the one
  \<^verbatim>\<open>update_free_page_list\<close> gives for the page of the variable part, whose free space is
  what \<^verbatim>\<open>free_record\<close> left and whose \<open>list_index\<close> agrees with it. The two branches on
  \<open>free_space == DATA_WORDS - 1\<close> are the same call.
\<close>

theorem free_var_rec_keeps_page:
  assumes "\<forall>t k pg. m_empty_pages (fragrec (free_fix_rec env t k pg)) = m_empty_pages (fragrec t) \<and>
             noOfVarPages (fragrec (free_fix_rec env t k pg)) = noOfVarPages (fragrec t) \<and>
             m_var_page_chunks (fragrec (free_fix_rec env t k pg)) = m_var_page_chunks (fragrec t)"
    and "\<forall>t k pg j. chunk_size (c_page_pool (free_fix_rec env t k pg) j) = chunk_size (c_page_pool t j) \<and>
             next_chunk (c_page_pool (free_fix_rec env t k pg) j) = next_chunk (c_page_pool t j)"
    and "\<forall>pg idx. chunk_size (free_record env pg idx) = chunk_size pg \<and>
             next_chunk (free_record env pg idx) = next_chunk pg"
    and "free_var_rec env s key pagePtr = Inr s'"
  shows "m_empty_pages (fragrec s') = m_empty_pages (fragrec s) \<and>
         noOfVarPages (fragrec s') = noOfVarPages (fragrec s) \<and>
         m_var_page_chunks (fragrec s') = m_var_page_chunks (fragrec s) \<and>
         (\<forall>j. chunk_size (c_page_pool s' j) = chunk_size (c_page_pool s j) \<and>
              next_chunk (c_page_pool s' j) = next_chunk (c_page_pool s j)) \<and>
         (\<exists>ref s2.
            var_part_ref_copyout (c_page_pool s)
              (Ptr pagePtr (get_var_part_ptr env (tabrec s)
                 (fix_get_ptr env (c_page_pool s pagePtr) (m_page_idx key) 0))) = Inr ref \<and>
            update_free_page_list s2 (m_page_no ref) = Inr s' \<and>
            free_space (c_page_pool s' (m_page_no ref)) =
              free_space (free_record env
                 (c_page_pool (free_fix_rec env s key pagePtr) (m_page_no ref)) (m_page_idx ref)) \<and>
            list_index_consistent (c_page_pool s' (m_page_no ref)))"
proof -
  from free_var_rec_steps [OF assms(4)] obtain ref s2 where
    c: "var_part_ref_copyout (c_page_pool s)
             (Ptr pagePtr (get_var_part_ptr env (tabrec s)
                (fix_get_ptr env (c_page_pool s pagePtr) (m_page_idx key) 0))) = Inr ref"
    and s2: "s2 = (free_fix_rec env s key pagePtr)
                  \<lparr>c_page_pool := (c_page_pool (free_fix_rec env s key pagePtr))
                     (m_page_no ref := free_record env
                        (c_page_pool (free_fix_rec env s key pagePtr) (m_page_no ref))
                        (m_page_idx ref))\<rparr>"
    and u: "update_free_page_list s2 (m_page_no ref) = Inr s'" by blast
  note o = update_free_page_list_only_lists [OF u]
  from only_lists_changed_frag [OF o] assms(1)
  have f: "m_empty_pages (fragrec s') = m_empty_pages (fragrec s) \<and>
         noOfVarPages (fragrec s') = noOfVarPages (fragrec s) \<and>
         m_var_page_chunks (fragrec s') = m_var_page_chunks (fragrec s)"
    by (simp add: s2)
  have ch: "chunk_size (c_page_pool s' j) = chunk_size (c_page_pool s j) \<and>
            next_chunk (c_page_pool s' j) = next_chunk (c_page_pool s j)" for j
    using only_lists_changed_page(3,4) [OF o, of j] assms(2,3)
    by (simp add: s2)
  have fs: "free_space (c_page_pool s' (m_page_no ref)) =
              free_space (free_record env
                 (c_page_pool (free_fix_rec env s key pagePtr) (m_page_no ref)) (m_page_idx ref))"
    using only_lists_changed_page(1) [OF o, of "m_page_no ref"] by (simp add: s2)
  have "list_index_consistent (c_page_pool s' (m_page_no ref))"
    using u by (rule update_free_page_list_consistent)
  with f ch fs c u show ?thesis by blast
qed

text \<open>
  In \<open>last_entry_state\<close> the call frees the only entry of page 7, which is left with
  \<open>DATA_WORDS - 1\<close> free words: it stays the head of list 3 and the one chunk of the
  fragment, the list of empty pages stays empty and the page count stays 1.
\<close>

theorem free_var_rec_keeps_page_witness:
  "\<exists>s'. free_var_rec demo_env last_entry_state \<lparr>m_page_no = 1, m_page_idx = 0\<rparr> 1 = Inr s' \<and>
      free_space (c_page_pool s' 7) = DATA_WORDS demo_env - 1 \<and>
      list_index (c_page_pool s' 7) = 3 \<and> free_var_page_array (fragrec s') 3 = 7 \<and>
      m_empty_pages (fragrec s') = RNIL \<and> noOfVarPages (fragrec s') = 1 \<and>
      m_var_page_chunks (fragrec s') = 7 \<and> chunk_size (c_page_pool s' 7) = 1"
proof -
  from last_entry_state_free obtain s' where
    a: "free_var_rec demo_env last_entry_state \<lparr>m_page_no = 1, m_page_idx = 0\<rparr> 1 = Inr s'"
    and v: "free_space (c_page_pool s' 7) = DATA_WORDS demo_env - 1"
      "list_index (c_page_pool s' 7) = 3" "free_var_page_array (fragrec s') 3 = 7"
    by (auto split: sum.splits)
  from free_var_rec_keeps_page [OF demo_env_free_frame a]
  have "m_empty_pages (fragrec s') = RNIL \<and> noOfVarPages (fragrec s') = 1 \<and>
      m_var_page_chunks (fragrec s') = 7 \<and> chunk_size (c_page_pool s' 7) = 1"
    by (simp add: last_entry_state_def blank_page_def)
  with a v show ?thesis by blast
qed

end
